theory Spec2Isabelle
  imports Main "HOL-Library.Word"
begin

section \<open>Data model\<close>

text \<open>
  The two scripts \<^verbatim>\<open>src/test.py\<close> and \<^verbatim>\<open>src/examples/client.py\<close> exchange
  numpy arrays with a server over a TCP socket. The numpy and socket libraries are not
  part of the repository: the array type is a type parameter \<open>'arr\<close>, the numpy
  functions the scripts call are the fields of a record passed to every function, and a
  socket object carries the outcomes that its library calls will have.
\<close>

type_synonym byte = "8 word"

type_synonym addr = "string \<times> nat"

text \<open>The exceptions that the library calls and the \<^verbatim>\<open>assert\<close> statements raise.\<close>

datatype error = OSError nat | ValueError | EOFError | TypeError | AssertionError

text \<open>
  The numpy functions used by the scripts: \<^verbatim>\<open>np.save\<close> (the bytes it writes for an
  array), \<^verbatim>\<open>np.load\<close> (the array it reads from the bytes at the file position, or the
  exception it raises), \<^verbatim>\<open>np.eye\<close>, \<^verbatim>\<open>np.ones\<close>, array subtraction \<^verbatim>\<open>y - x\<close>
  (which raises when the operands do not broadcast), subtraction from a Python number
  \<^verbatim>\<open>1 - x\<close>, \<^verbatim>\<open>np.allclose\<close> against an array and against a Python number, and the
  attribute \<^verbatim>\<open>shape\<close>.
\<close>

record 'arr numpy =
  save :: "'arr \<Rightarrow> byte list"
  load :: "byte list \<Rightarrow> error + 'arr"
  eye :: "nat \<Rightarrow> 'arr"
  ones :: "nat list \<Rightarrow> 'arr"
  sub :: "'arr \<Rightarrow> 'arr \<Rightarrow> error + 'arr"
  rsub :: "int \<Rightarrow> 'arr \<Rightarrow> 'arr"
  allclose :: "'arr \<Rightarrow> 'arr \<Rightarrow> bool"
  allclose_num :: "'arr \<Rightarrow> int \<Rightarrow> bool"
  shape :: "'arr \<Rightarrow> nat list"

subsection \<open>\<^verbatim>\<open>io.BytesIO\<close>\<close>

text \<open>An in-memory file: its contents and the position of the next read or write.\<close>

record bytesio =
  buf :: "byte list"
  pos :: nat

definition BytesIO :: bytesio where
  "BytesIO = \<lparr>buf = [], pos = 0\<rparr>"

text \<open>
  \<^verbatim>\<open>f.write(z)\<close> overwrites from the position on, extends the contents where the data
  goes past the end (padding with zero bytes when the position lies beyond the end), and
  advances the position. Writing no bytes changes nothing.
\<close>

definition write_bytes :: "bytesio \<Rightarrow> byte list \<Rightarrow> bytesio" where
  "write_bytes f z =
     (if z = [] then f
      else \<lparr>buf = take (pos f) (buf f) @ replicate (pos f - length (buf f)) 0 @ z
                   @ drop (pos f + length z) (buf f),
            pos = pos f + length z\<rparr>)"

definition seek :: "bytesio \<Rightarrow> nat \<Rightarrow> bytesio" where
  "seek f n = f\<lparr>pos := n\<rparr>"

text \<open>\<^verbatim>\<open>f.read()\<close> returns everything from the position to the end.\<close>

definition read :: "bytesio \<Rightarrow> byte list \<times> bytesio" where
  "read f = (drop (pos f) (buf f), f\<lparr>pos := max (pos f) (length (buf f))\<rparr>)"

text \<open>\<^verbatim>\<open>np.save(f, A)\<close> writes the encoding of \<open>A\<close> at the position of \<open>f\<close>.\<close>

definition np_save :: "'arr numpy \<Rightarrow> bytesio \<Rightarrow> 'arr \<Rightarrow> bytesio" where
  "np_save np f A = write_bytes f (save np A)"

text \<open>\<^verbatim>\<open>np.load(f)\<close> decodes the bytes from the position of \<open>f\<close> on.\<close>

definition np_load :: "'arr numpy \<Rightarrow> bytesio \<Rightarrow> error + 'arr" where
  "np_load np f = load np (drop (pos f) (buf f))"

subsection \<open>Sockets\<close>

text \<open>The calls made on a socket object, in the order they were made.\<close>

datatype op = Connect addr | Sendall "byte list" | Recv nat | Close

text \<open>
  A socket object. The first three fields are what the operating system and the peer
  will answer: whether \<^verbatim>\<open>connect\<close> to an address raises, whether \<^verbatim>\<open>sendall\<close> of a
  buffer raises, and what the \<open>k\<close>-th call of \<^verbatim>\<open>recv\<close> returns for a given buffer size
  (a chunk of bytes, empty once the peer has closed the connection, or an exception).
  The other fields are the state of the object: how many \<^verbatim>\<open>recv\<close> calls were made,
  the calls made so far, and whether it was closed.
\<close>

record sock =
  connect_result :: "addr \<Rightarrow> error option"
  sendall_result :: "byte list \<Rightarrow> error option"
  recv_result :: "nat \<Rightarrow> nat \<Rightarrow> error + byte list"
  recvs :: nat
  ops :: "op list"
  closed :: bool

definition connect :: "sock \<Rightarrow> addr \<Rightarrow> (error + unit) \<times> sock" where
  "connect s a =
     (case connect_result s a of
        Some e \<Rightarrow> (Inl e, s\<lparr>ops := ops s @ [Connect a]\<rparr>)
      | None \<Rightarrow> (Inr (), s\<lparr>ops := ops s @ [Connect a]\<rparr>))"

definition sendall :: "sock \<Rightarrow> byte list \<Rightarrow> (error + unit) \<times> sock" where
  "sendall s d =
     (case sendall_result s d of
        Some e \<Rightarrow> (Inl e, s\<lparr>ops := ops s @ [Sendall d]\<rparr>)
      | None \<Rightarrow> (Inr (), s\<lparr>ops := ops s @ [Sendall d]\<rparr>))"

definition recv :: "sock \<Rightarrow> nat \<Rightarrow> (error + byte list) \<times> sock" where
  "recv s n = (recv_result s (recvs s) n, s\<lparr>recvs := Suc (recvs s), ops := ops s @ [Recv n]\<rparr>)"

definition close :: "sock \<Rightarrow> sock" where
  "close s = s\<lparr>ops := ops s @ [Close], closed := True\<rparr>"

section \<open>\<^verbatim>\<open>src/test.py\<close>\<close>

definition send_array :: "'arr numpy \<Rightarrow> sock \<Rightarrow> 'arr \<Rightarrow> (error + unit) \<times> sock" where
  "send_array np s A =
     (let f = BytesIO;
          f = np_save np f A;
          f = seek f 0;
          (d, f) = read f
      in sendall s d)"

text \<open>
  The \<^verbatim>\<open>while True\<close> loop of \<^verbatim>\<open>recv_array\<close>. It may run forever: the result is
  \<open>None\<close> when it does, an exception when a \<^verbatim>\<open>recv\<close> raises, and the filled buffer
  when a \<^verbatim>\<open>recv\<close> returns no bytes.
\<close>

partial_function (option) recv_loop :: "sock \<Rightarrow> bytesio \<Rightarrow> ((error + bytesio) \<times> sock) option" where
  "recv_loop s f =
     (case recv s 1024 of
        (Inl e, s') \<Rightarrow> Some (Inl e, s')
      | (Inr z, s') \<Rightarrow> if z = [] then Some (Inr f, s') else recv_loop s' (write_bytes f z))"

declare recv_loop.simps [code]

definition recv_array :: "'arr numpy \<Rightarrow> sock \<Rightarrow> ((error + 'arr) \<times> sock) option" where
  "recv_array np s =
     (case recv_loop s BytesIO of
        None \<Rightarrow> None
      | Some (Inl e, s') \<Rightarrow> Some (Inl e, s')
      | Some (Inr f, s') \<Rightarrow> (let f = seek f 0; x = np_load np f in Some (x, s')))"

text \<open>
  The state outside a script: the socket objects that the successive calls of
  \<^verbatim>\<open>socket.socket(AF_INET, SOCK_STREAM)\<close> return, how many were created, and the
  sockets whose \<^verbatim>\<open>with\<close> block has been left, in the state they were left in.
\<close>

record world =
  sockets :: "nat \<Rightarrow> sock"
  created :: nat
  released :: "sock list"

text \<open>
  \<^verbatim>\<open>with socket.socket(...) as s:\<close> creates the socket, runs the block and closes the
  socket when the block is left, by its end or by an exception, which then propagates.
  When the block never ends, neither does the statement.
\<close>

definition with_socket ::
  "world \<Rightarrow> (sock \<Rightarrow> ((error + 'a) \<times> sock) option) \<Rightarrow> ((error + 'a) \<times> world) option" where
  "with_socket w block =
     (case block (sockets w (created w)) of
        None \<Rightarrow> None
      | Some (r, s') \<Rightarrow>
          Some (r, w\<lparr>created := Suc (created w), released := released w @ [close s']\<rparr>))"

definition exchange :: "'arr numpy \<Rightarrow> addr \<Rightarrow> 'arr \<Rightarrow> world \<Rightarrow> ((error + 'arr) \<times> world) option" where
  "exchange np addr A w =
     with_socket w (\<lambda>s.
       case connect s addr of
         (Inl e, s) \<Rightarrow> Some (Inl e, s)
       | (Inr u, s) \<Rightarrow>
           (case send_array np s A of
              (Inl e, s) \<Rightarrow> Some (Inl e, s)
            | (Inr u, s) \<Rightarrow> recv_array np s))"

text \<open>
  \<^verbatim>\<open>main\<close> of \<^verbatim>\<open>src/test.py\<close>. The matrix that \<^verbatim>\<open>np.random.randn(2, 2)\<close> draws is the
  argument \<open>randn\<close>. The result is \<open>Inr ()\<close> when the function returns and \<open>Inl e\<close>
  when it is left by the exception \<open>e\<close>.
\<close>

definition main :: "'arr numpy \<Rightarrow> 'arr \<Rightarrow> world \<Rightarrow> ((error + unit) \<times> world) option" where
  "main np randn w =
     (let address = (''127.0.0.1'', 8080);
          x = eye np 2
      in (case exchange np address x w of
            None \<Rightarrow> None
          | Some (Inl e, w) \<Rightarrow> Some (Inl e, w)
          | Some (Inr y, w) \<Rightarrow>
         (case sub np y x of
            Inl e \<Rightarrow> Some (Inl e, w)
          | Inr d \<Rightarrow>
         (if \<not> allclose np d (ones np [2, 2]) then Some (Inl AssertionError, w)
          else
         (let z = rsub np 1 (eye np 2)
          in (case exchange np address z w of
                None \<Rightarrow> None
              | Some (Inl e, w) \<Rightarrow> Some (Inl e, w)
              | Some (Inr y, w) \<Rightarrow>
             (case sub np y z of
                Inl e \<Rightarrow> Some (Inl e, w)
              | Inr d \<Rightarrow>
             (if \<not> allclose np d (ones np [2, 2]) then Some (Inl AssertionError, w)
              else
             (let z = randn
              in (case exchange np address z w of
                    None \<Rightarrow> None
                  | Some (Inl e, w) \<Rightarrow> Some (Inl e, w)
                  | Some (Inr y, w) \<Rightarrow>
                 (case sub np y z of
                    Inl e \<Rightarrow> Some (Inl e, w)
                  | Inr d \<Rightarrow>
                 (if \<not> allclose np d (ones np [2, 2]) then Some (Inl AssertionError, w)
                  else Some (Inr (), w)))))))))))))"

section \<open>\<^verbatim>\<open>src/examples/client.py\<close>\<close>

definition client_send_array :: "'arr numpy \<Rightarrow> sock \<Rightarrow> 'arr \<Rightarrow> (error + unit) \<times> sock" where
  "client_send_array np s A =
     (let f = BytesIO;
          f = np_save np f A;
          f = seek f 0;
          (d, f) = read f
      in sendall s d)"

partial_function (option) client_recv_loop ::
  "sock \<Rightarrow> bytesio \<Rightarrow> ((error + bytesio) \<times> sock) option" where
  "client_recv_loop s f =
     (case recv s 1024 of
        (Inl e, s') \<Rightarrow> Some (Inl e, s')
      | (Inr z, s') \<Rightarrow> if z = [] then Some (Inr f, s') else client_recv_loop s' (write_bytes f z))"

declare client_recv_loop.simps [code]

definition client_recv_array :: "'arr numpy \<Rightarrow> sock \<Rightarrow> ((error + 'arr) \<times> sock) option" where
  "client_recv_array np s =
     (case client_recv_loop s BytesIO of
        None \<Rightarrow> None
      | Some (Inl e, s') \<Rightarrow> Some (Inl e, s')
      | Some (Inr f, s') \<Rightarrow> (let f = seek f 0; x = np_load np f in Some (x, s')))"

definition client_exchange ::
  "'arr numpy \<Rightarrow> addr \<Rightarrow> 'arr \<Rightarrow> world \<Rightarrow> ((error + 'arr) \<times> world) option" where
  "client_exchange np addr A w =
     with_socket w (\<lambda>s.
       case connect s addr of
         (Inl e, s) \<Rightarrow> Some (Inl e, s)
       | (Inr u, s) \<Rightarrow>
           (case client_send_array np s A of
              (Inl e, s) \<Rightarrow> Some (Inl e, s)
            | (Inr u, s) \<Rightarrow> client_recv_array np s))"

text \<open>
  \<^verbatim>\<open>main\<close> of \<^verbatim>\<open>src/examples/client.py\<close>; \<open>randn\<close> is the vector that
  \<^verbatim>\<open>np.random.randn(1, 32)\<close> draws.
\<close>

definition client_main :: "'arr numpy \<Rightarrow> 'arr \<Rightarrow> world \<Rightarrow> ((error + unit) \<times> world) option" where
  "client_main np randn w =
     (let address = (''127.0.0.1'', 8080);
          x = randn
      in case client_exchange np address x w of
           None \<Rightarrow> None
         | Some (Inl e, w) \<Rightarrow> Some (Inl e, w)
         | Some (Inr y, w) \<Rightarrow>
             if shape np y \<noteq> [1, 10] then Some (Inl AssertionError, w)
             else if \<not> allclose_num np y 0 then Some (Inl AssertionError, w)
             else Some (Inr (), w))"

section \<open>Vocabulary of the properties\<close>

text \<open>
  The chunk that the \<open>k\<close>-th further \<^verbatim>\<open>recv(1024)\<close> on a socket returns (none when it
  raises), and the bytes that the next \<open>n\<close> calls deliver, in arrival order.
\<close>

definition chunk :: "sock \<Rightarrow> nat \<Rightarrow> byte list" where
  "chunk s k = (case recv_result s (recvs s + k) 1024 of Inl e \<Rightarrow> [] | Inr z \<Rightarrow> z)"

definition received :: "sock \<Rightarrow> nat \<Rightarrow> byte list" where
  "received s n = concat (map (chunk s) [0..<n])"

text \<open>The next \<open>n\<close> calls of \<^verbatim>\<open>recv(1024)\<close> all return data: no exception, no empty chunk.\<close>

definition data_until :: "sock \<Rightarrow> nat \<Rightarrow> bool" where
  "data_until s n =
     list_all (\<lambda>k. case recv_result s (recvs s + k) 1024 of Inl e \<Rightarrow> False | Inr z \<Rightarrow> z \<noteq> [])
       [0..<n]"

text \<open>
  After \<open>n\<close> chunks of data the next \<^verbatim>\<open>recv(1024)\<close> returns no bytes (the peer has closed
  the connection), respectively raises \<open>e\<close>.
\<close>

definition eof_at :: "sock \<Rightarrow> nat \<Rightarrow> bool" where
  "eof_at s n = (data_until s n \<and> recv_result s (recvs s + n) 1024 = Inr [])"

definition error_at :: "sock \<Rightarrow> nat \<Rightarrow> error \<Rightarrow> bool" where
  "error_at s n e = (data_until s n \<and> recv_result s (recvs s + n) 1024 = Inl e)"

text \<open>The socket after \<open>m\<close> more calls of \<^verbatim>\<open>recv(1024)\<close>, and after the calls \<open>xs\<close>.\<close>

definition after_recvs :: "sock \<Rightarrow> nat \<Rightarrow> sock" where
  "after_recvs s m = s\<lparr>recvs := recvs s + m, ops := ops s @ replicate m (Recv 1024)\<rparr>"

definition logged :: "sock \<Rightarrow> op list \<Rightarrow> sock" where
  "logged s xs = s\<lparr>ops := ops s @ xs\<rparr>"

text \<open>The world after a \<^verbatim>\<open>with\<close> block on a new socket was left with the socket in state \<open>s\<close>.\<close>

definition leave :: "world \<Rightarrow> sock \<Rightarrow> world" where
  "leave w s = w\<lparr>created := Suc (created w), released := released w @ [close s]\<rparr>"

text \<open>Every socket created so far has been released, and is closed.\<close>

definition no_open_socket :: "world \<Rightarrow> bool" where
  "no_open_socket w = (length (released w) = created w \<and> list_all closed (released w))"

text \<open>
  \<^verbatim>\<open>np.allclose(y - z, np.ones((2, 2)))\<close> evaluates to true: the subtraction does not
  raise and its result is close to the all-ones matrix.
\<close>

definition close_to_ones :: "'arr numpy \<Rightarrow> 'arr \<Rightarrow> 'arr \<Rightarrow> bool" where
  "close_to_ones np y z =
     (case sub np y z of Inl e \<Rightarrow> False | Inr d \<Rightarrow> allclose np d (ones np [2, 2]))"

text \<open>
  The outcome of the statement \<^verbatim>\<open>assert np.allclose(y - z, np.ones((2, 2)))\<close>: the
  exception of the subtraction, an \<^verbatim>\<open>AssertionError\<close>, or nothing.
\<close>

definition assert_close_to_ones :: "'arr numpy \<Rightarrow> 'arr \<Rightarrow> 'arr \<Rightarrow> error + unit" where
  "assert_close_to_ones np y z =
     (case sub np y z of
        Inl e \<Rightarrow> Inl e
      | Inr d \<Rightarrow> if allclose np d (ones np [2, 2]) then Inr () else Inl AssertionError)"

text \<open>
  One step of a \<^verbatim>\<open>main\<close> function: an exchange with outcome \<open>r\<close>, then the assertions
  \<open>chk\<close> on the array it returned, then the rest of the function.
\<close>

definition then_check ::
  "((error + 'arr) \<times> world) option \<Rightarrow> ('arr \<Rightarrow> error + unit) \<Rightarrow>
   (world \<Rightarrow> ((error + unit) \<times> world) option) \<Rightarrow> ((error + unit) \<times> world) option" where
  "then_check r chk rest =
     (case r of
        None \<Rightarrow> None
      | Some (Inl e, w) \<Rightarrow> Some (Inl e, w)
      | Some (Inr y, w) \<Rightarrow> (case chk y of Inl e \<Rightarrow> Some (Inl e, w) | Inr u \<Rightarrow> rest w))"

section \<open>A concrete library and concrete peers\<close>

text \<open>
  An instance of the library record on integer arrays (a shape and the elements in row
  order), with a one-byte-per-number encoding, and peers that accept the connection and
  the request and answer with given chunks before closing. They serve to run the scripts
  on concrete inputs.
\<close>

type_synonym int_array = "nat list \<times> int list"

definition int_save :: "int_array \<Rightarrow> byte list" where
  "int_save a = of_nat (length (fst a)) # map of_nat (fst a) @ map of_int (snd a)"

definition int_load :: "byte list \<Rightarrow> error + int_array" where
  "int_load bs =
     (case bs of
        [] \<Rightarrow> Inl EOFError
      | h # r \<Rightarrow>
          if length r < unat h then Inl ValueError
          else if length (drop (unat h) r) \<noteq> prod_list (map unat (take (unat h) r))
          then Inl ValueError
          else Inr (map unat (take (unat h) r), map sint (drop (unat h) r)))"

definition int_numpy :: "int_array numpy" where
  "int_numpy =
     \<lparr>save = int_save,
      load = int_load,
      eye = (\<lambda>n. ([n, n], concat (map (\<lambda>i. map (\<lambda>j. if i = j then 1 else 0) [0..<n]) [0..<n]))),
      ones = (\<lambda>shp. (shp, replicate (prod_list shp) 1)),
      sub = (\<lambda>a b. if fst a = fst b then Inr (fst a, map2 (-) (snd a) (snd b)) else Inl ValueError),
      rsub = (\<lambda>c a. (fst a, map (\<lambda>v. c - v) (snd a))),
      allclose = (=),
      allclose_num = (\<lambda>a c. list_all (\<lambda>v. v = c) (snd a)),
      shape = fst\<rparr>"

text \<open>A peer that sends the chunks \<open>zs\<close> and then closes the connection.\<close>

definition peer_sending :: "byte list list \<Rightarrow> sock" where
  "peer_sending zs =
     \<lparr>connect_result = (\<lambda>a. None),
      sendall_result = (\<lambda>d. None),
      recv_result = (\<lambda>k n. if k < length zs then Inr (zs ! k) else Inr []),
      recvs = 0, ops = [], closed = False\<rparr>"

definition world_of :: "(nat \<Rightarrow> sock) \<Rightarrow> world" where
  "world_of socks = \<lparr>sockets = socks, created = 0, released = []\<rparr>"

text \<open>A peer that never stops sending: every receive returns one byte.\<close>

definition peer_streaming :: sock where
  "peer_streaming =
     \<lparr>connect_result = (\<lambda>a. None),
      sendall_result = (\<lambda>d. None),
      recv_result = (\<lambda>k n. Inr [0]),
      recvs = 0, ops = [], closed = False\<rparr>"

text \<open>
  A peer whose \<^verbatim>\<open>connect\<close> and \<^verbatim>\<open>sendall\<close> have the given outcomes and whose receives
  return the given results, then no bytes.
\<close>

definition peer_failing :: "error option \<Rightarrow> error option \<Rightarrow> (error + byte list) list \<Rightarrow> sock" where
  "peer_failing c d rs =
     \<lparr>connect_result = (\<lambda>a. c),
      sendall_result = (\<lambda>b. d),
      recv_result = (\<lambda>k n. if k < length rs then rs ! k else Inr []),
      recvs = 0, ops = [], closed = False\<rparr>"

text \<open>
  The sockets met by \<^verbatim>\<open>main\<close> of \<^verbatim>\<open>test.py\<close> when the server adds one to every element
  of the identity matrix, of its complement and of the matrix \<open>[[3, -1], [0, 5]]\<close>, and by
  \<^verbatim>\<open>main\<close> of \<^verbatim>\<open>client.py\<close> when the server answers with a 1\<times>10 array of zeros.
\<close>

definition plus_one_server :: "nat \<Rightarrow> sock" where
  "plus_one_server k =
     peer_sending
       (if k = 0 then [[2, 2, 2, 2, 1, 1, 2]]
        else if k = 1 then [[2, 2, 2, 1], [2, 2, 1]]
        else [[2, 2, 2], [4, 0, 1, 6]])"

definition zero_server :: "nat \<Rightarrow> sock" where
  "zero_server k = peer_sending [[2, 1, 10, 0, 0, 0, 0, 0], [0, 0, 0, 0, 0]]"

section \<open>The receive loop\<close>

lemma data_until_iff:
  "data_until s n \<longleftrightarrow> (\<forall>k<n. \<exists>z. recv_result s (recvs s + k) 1024 = Inr z \<and> z \<noteq> [])"
  unfolding data_until_def list_all_iff
  apply (auto split: sum.splits)
  subgoal for k by (cases "recv_result s (recvs s + k) 1024") auto
  done

lemma data_until_0 [simp]: "data_until s 0"
  by (simp add: data_until_def)

lemma data_until_Suc:
  "data_until s (Suc n) \<longleftrightarrow>
     (\<exists>z. recv_result s (recvs s) 1024 = Inr z \<and> z \<noteq> []) \<and> data_until (snd (recv s 1024)) n"
proof -
  have "(\<forall>k<Suc n. \<exists>z. recv_result s (recvs s + k) 1024 = Inr z \<and> z \<noteq> []) \<longleftrightarrow>
        (\<exists>z. recv_result s (recvs s) 1024 = Inr z \<and> z \<noteq> []) \<and>
        (\<forall>k<n. \<exists>z. recv_result s (Suc (recvs s + k)) 1024 = Inr z \<and> z \<noteq> [])"
    by (auto simp: less_Suc_eq_0_disj)
  then show ?thesis
    by (simp add: data_until_iff recv_def)
qed

lemma received_0 [simp]: "received s 0 = []"
  by (simp add: received_def)

lemma received_Suc: "received s (Suc n) = chunk s 0 @ received (snd (recv s 1024)) n"
proof -
  have "map (chunk s) [0..<Suc n] = chunk s 0 # map (chunk (snd (recv s 1024))) [0..<n]"
    by (simp add: upt_conv_Cons map_Suc_upt [symmetric] chunk_def recv_def del: upt_Suc)
  then show ?thesis
    by (simp add: received_def del: upt_Suc)
qed

lemma after_recvs_Suc: "after_recvs (snd (recv s 1024)) n = after_recvs s (Suc n)"
  by (simp add: after_recvs_def recv_def replicate_app_Cons_same)

lemma recv_loop_eof:
  "eof_at s n \<Longrightarrow>
   recv_loop s f = Some (Inr (foldl write_bytes f (map (chunk s) [0..<n])), after_recvs s (Suc n))"
proof (induction n arbitrary: s f)
  case 0
  then have "recv_result s (recvs s) 1024 = Inr []" by (simp add: eof_at_def)
  then show ?case
    by (subst recv_loop.simps) (simp add: recv_def after_recvs_def)
next
  case (Suc n)
  let ?s = "snd (recv s 1024)"
  from Suc.prems obtain z where z: "recv_result s (recvs s) 1024 = Inr z" "z \<noteq> []"
    and d: "data_until ?s n" and e: "recv_result s (recvs s + Suc n) 1024 = Inr []"
    by (auto simp: eof_at_def data_until_Suc)
  have "eof_at ?s n" using d e by (simp add: eof_at_def recv_def)
  from Suc.IH [OF this, of "write_bytes f z"]
  have "recv_loop ?s (write_bytes f z) =
    Some (Inr (foldl write_bytes (write_bytes f z) (map (chunk ?s) [0..<n])), after_recvs s (Suc (Suc n)))"
    by (simp add: after_recvs_Suc)
  moreover have "map (chunk s) [0..<Suc n] = z # map (chunk ?s) [0..<n]"
    using z by (simp add: upt_conv_Cons map_Suc_upt [symmetric] chunk_def recv_def del: upt_Suc)
  moreover have "recv_loop s f = recv_loop ?s (write_bytes f z)"
    using z by (subst recv_loop.simps) (simp add: recv_def)
  ultimately show ?case by (simp del: upt_Suc)
qed

lemma recv_loop_error:
  "error_at s n e \<Longrightarrow> recv_loop s f = Some (Inl e, after_recvs s (Suc n))"
proof (induction n arbitrary: s f)
  case 0
  then have "recv_result s (recvs s) 1024 = Inl e" by (simp add: error_at_def)
  then show ?case
    by (subst recv_loop.simps) (simp add: recv_def after_recvs_def)
next
  case (Suc n)
  let ?s = "snd (recv s 1024)"
  from Suc.prems obtain z where z: "recv_result s (recvs s) 1024 = Inr z" "z \<noteq> []"
    and d: "data_until ?s n" and e: "recv_result s (recvs s + Suc n) 1024 = Inl e"
    by (auto simp: error_at_def data_until_Suc)
  have "error_at ?s n e" using d e by (simp add: error_at_def recv_def)
  from Suc.IH [OF this, of "write_bytes f z"]
  have "recv_loop ?s (write_bytes f z) = Some (Inl e, after_recvs s (Suc (Suc n)))"
    by (simp add: after_recvs_Suc)
  moreover have "recv_loop s f = recv_loop ?s (write_bytes f z)"
    using z by (subst recv_loop.simps) (simp add: recv_def)
  ultimately show ?case by simp
qed

lemma recv_loop_forever:
  assumes "recv_loop s f = Some y"
  shows "\<not> (\<forall>n. data_until s n)"
proof (rule recv_loop.raw_induct [OF _ assms])
  fix rl s f and y :: "(error + bytesio) \<times> sock"
  assume IH: "\<And>s f y. rl s f = Some y \<Longrightarrow> \<not> (\<forall>n. data_until s n)"
    and eq: "(case recv s 1024 of
                (Inl e, s') \<Rightarrow> Some (Inl e, s')
              | (Inr z, s') \<Rightarrow> if z = [] then Some (Inr f, s') else rl s' (write_bytes f z)) =
             Some y"
  show "\<not> (\<forall>n. data_until s n)"
  proof
    assume all: "\<forall>n. data_until s n"
    then have "data_until s (Suc 0)" by blast
    then obtain z where z: "recv_result s (recvs s) 1024 = Inr z" "z \<noteq> []"
      by (auto simp: data_until_Suc)
    with eq have "rl (snd (recv s 1024)) (write_bytes f z) = Some y"
      by (simp add: recv_def)
    then have "\<not> (\<forall>n. data_until (snd (recv s 1024)) n)" by (rule IH)
    moreover have "\<forall>n. data_until (snd (recv s 1024)) n"
    proof
      fix n
      from all have "data_until s (Suc n)" by blast
      then show "data_until (snd (recv s 1024)) n" by (simp add: data_until_Suc)
    qed
    ultimately show False by blast
  qed
qed

lemma recv_loop_None_iff: "recv_loop s f = None \<longleftrightarrow> (\<forall>n. data_until s n)"
proof
  assume "recv_loop s f = None"
  show "\<forall>n. data_until s n"
  proof (rule ccontr)
    assume "\<not> (\<forall>n. data_until s n)"
    then obtain n where n: "\<not> data_until s n" by blast
    define m where "m = (LEAST n. \<not> data_until s n)"
    have m: "\<not> data_until s m" unfolding m_def using n by (rule LeastI)
    then have "m \<noteq> 0" by (auto intro: ccontr)
    then obtain k where k: "m = Suc k" by (cases m) auto
    have "data_until s k"
    proof (rule ccontr)
      assume "\<not> data_until s k"
      then have "m \<le> k" unfolding m_def by (rule Least_le)
      with k show False by simp
    qed
    with m k have stop: "\<not> (\<exists>z. recv_result s (recvs s + k) 1024 = Inr z \<and> z \<noteq> [])"
      by (auto simp: data_until_iff less_Suc_eq)
    show False
    proof (cases "recv_result s (recvs s + k) 1024")
      case (Inl e)
      with \<open>data_until s k\<close> have "error_at s k e" by (simp add: error_at_def)
      from recv_loop_error [OF this] \<open>recv_loop s f = None\<close> show False by simp
    next
      case (Inr z)
      with stop have "z = []" by auto
      with Inr \<open>data_until s k\<close> have "eof_at s k" by (simp add: eof_at_def)
      from recv_loop_eof [OF this] \<open>recv_loop s f = None\<close> show False by simp
    qed
  qed
next
  assume "\<forall>n. data_until s n"
  then show "recv_loop s f = None"
    using recv_loop_forever [of s f] by (cases "recv_loop s f") auto
qed

lemma eof_at_unique: "eof_at s n \<Longrightarrow> eof_at s m \<Longrightarrow> n = m"
proof (rule ccontr)
  assume a: "eof_at s n" "eof_at s m" "n \<noteq> m"
  { fix i j assume "eof_at s i" "eof_at s j" "i < j"
    then have False by (auto simp: eof_at_def data_until_iff) }
  with a show False by (cases "n < m") (auto simp: not_less le_less)
qed

lemma recv_loop_Inr_iff:
  "(\<exists>f' s'. recv_loop s f = Some (Inr f', s')) \<longleftrightarrow> (\<exists>n. eof_at s n)"
proof
  assume "\<exists>f' s'. recv_loop s f = Some (Inr f', s')"
  then obtain f' s' where r: "recv_loop s f = Some (Inr f', s')" by blast
  then have "\<not> (\<forall>n. data_until s n)" by (rule recv_loop_forever)
  then obtain n where n: "\<not> data_until s n" by blast
  define m where "m = (LEAST n. \<not> data_until s n)"
  have m: "\<not> data_until s m" unfolding m_def using n by (rule LeastI)
  then have "m \<noteq> 0" by (auto intro: ccontr)
  then obtain k where k: "m = Suc k" by (cases m) auto
  have dk: "data_until s k"
  proof (rule ccontr)
    assume "\<not> data_until s k"
    then have "m \<le> k" unfolding m_def by (rule Least_le)
    with k show False by simp
  qed
  with m k have stop: "\<not> (\<exists>z. recv_result s (recvs s + k) 1024 = Inr z \<and> z \<noteq> [])"
    by (auto simp: data_until_iff less_Suc_eq)
  show "\<exists>n. eof_at s n"
  proof (cases "recv_result s (recvs s + k) 1024")
    case (Inl e)
    with dk have "error_at s k e" by (simp add: error_at_def)
    from recv_loop_error [OF this, of f] r show ?thesis by simp
  next
    case (Inr z)
    with stop have "z = []" by auto
    with Inr dk have "eof_at s k" by (simp add: eof_at_def)
    then show ?thesis ..
  qed
next
  assume "\<exists>n. eof_at s n"
  then obtain n where "eof_at s n" ..
  from recv_loop_eof [OF this, of f] show "\<exists>f' s'. recv_loop s f = Some (Inr f', s')" by blast
qed

section \<open>Buffers, \<^verbatim>\<open>send_array\<close> and \<^verbatim>\<open>recv_array\<close>\<close>

lemma write_bytes_at_end:
  "pos f = length (buf f) \<Longrightarrow>
   write_bytes f z = \<lparr>buf = buf f @ z, pos = length (buf f) + length z\<rparr>"
  by (cases f) (simp add: write_bytes_def)

lemma foldl_write_bytes_at_end:
  "pos f = length (buf f) \<Longrightarrow>
   foldl write_bytes f zs = \<lparr>buf = buf f @ concat zs, pos = length (buf f) + length (concat zs)\<rparr>"
proof (induction zs arbitrary: f)
  case Nil
  then show ?case by (cases f) simp
next
  case (Cons z zs)
  have "pos (write_bytes f z) = length (buf (write_bytes f z))"
    using Cons.prems by (simp add: write_bytes_at_end)
  from Cons.IH [OF this] show ?case
    using Cons.prems by (simp add: write_bytes_at_end)
qed

lemma recv_loop_BytesIO:
  "eof_at s n \<Longrightarrow>
   recv_loop s BytesIO =
     Some (Inr \<lparr>buf = received s n, pos = length (received s n)\<rparr>, after_recvs s (Suc n))"
  by (simp add: recv_loop_eof foldl_write_bytes_at_end BytesIO_def received_def del: upt_Suc)

lemma recv_array_eof:
  "eof_at s n \<Longrightarrow> recv_array np s = Some (load np (received s n), after_recvs s (Suc n))"
  by (simp add: recv_array_def recv_loop_BytesIO seek_def np_load_def)

lemma recv_array_error:
  "error_at s n e \<Longrightarrow> recv_array np s = Some (Inl e, after_recvs s (Suc n))"
  by (simp add: recv_array_def recv_loop_error)

lemma recv_array_None_iff: "recv_array np s = None \<longleftrightarrow> (\<forall>n. data_until s n)"
proof -
  have "recv_array np s = None \<longleftrightarrow> recv_loop s BytesIO = None"
    by (simp add: recv_array_def Let_def split: option.splits prod.splits sum.splits)
  then show ?thesis by (simp add: recv_loop_None_iff)
qed

lemma send_array_sendall: "send_array np s A = sendall s (save np A)"
  by (simp add: send_array_def BytesIO_def np_save_def write_bytes_def seek_def read_def Let_def)

text \<open>
  What the two functions contribute to a round trip: \<^verbatim>\<open>send_array\<close> hands \<^verbatim>\<open>sendall\<close>
  the whole encoding of the array, and \<^verbatim>\<open>recv_array\<close> on a stream that delivers that
  buffer, in any chunking, returns what \<^verbatim>\<open>np.load\<close> makes of the whole encoding.
\<close>

lemma send_recv_plumbing:
  assumes "eof_at t n"
    and "ops (snd (send_array np s A)) = ops s @ [Sendall (received t n)]"
  shows "received t n = save np A \<and>
         recv_array np t = Some (load np (save np A), after_recvs t (Suc n))"
proof -
  have "ops (snd (send_array np s A)) = ops s @ [Sendall (save np A)]"
    by (simp add: send_array_sendall sendall_def split: option.splits)
  with assms(2) have "received t n = save np A" by simp
  with assms(1) show ?thesis by (simp add: recv_array_eof)
qed

lemma client_send_array_eq: "client_send_array = send_array"
  by (intro ext) (simp add: client_send_array_def send_array_def)

lemma client_recv_loop_le:
  assumes "client_recv_loop s f = Some y"
  shows "recv_loop s f = Some y"
proof (rule client_recv_loop.raw_induct [OF _ assms])
  fix rl s f and y :: "(error + bytesio) \<times> sock"
  assume IH: "\<And>s f y. rl s f = Some y \<Longrightarrow> recv_loop s f = Some y"
    and eq: "(case recv s 1024 of
                (Inl e, s') \<Rightarrow> Some (Inl e, s')
              | (Inr z, s') \<Rightarrow> if z = [] then Some (Inr f, s') else rl s' (write_bytes f z)) =
             Some y"
  show "recv_loop s f = Some y"
    using eq by (subst recv_loop.simps) (auto split: prod.splits sum.splits if_splits dest: IH)
qed

lemma recv_loop_le:
  assumes "recv_loop s f = Some y"
  shows "client_recv_loop s f = Some y"
proof (rule recv_loop.raw_induct [OF _ assms])
  fix rl s f and y :: "(error + bytesio) \<times> sock"
  assume IH: "\<And>s f y. rl s f = Some y \<Longrightarrow> client_recv_loop s f = Some y"
    and eq: "(case recv s 1024 of
                (Inl e, s') \<Rightarrow> Some (Inl e, s')
              | (Inr z, s') \<Rightarrow> if z = [] then Some (Inr f, s') else rl s' (write_bytes f z)) =
             Some y"
  show "client_recv_loop s f = Some y"
    using eq by (subst client_recv_loop.simps) (auto split: prod.splits sum.splits if_splits dest: IH)
qed

lemma client_recv_loop_eq: "client_recv_loop s f = recv_loop s f"
proof (cases "client_recv_loop s f")
  case None
  show ?thesis
  proof (cases "recv_loop s f")
    case None
    with \<open>client_recv_loop s f = None\<close> show ?thesis by simp
  next
    case (Some y)
    from recv_loop_le [OF this] None show ?thesis by simp
  qed
next
  case (Some y)
  from client_recv_loop_le [OF this] Some show ?thesis by simp
qed

lemma client_recv_array_eq: "client_recv_array = recv_array"
  by (intro ext) (simp add: client_recv_array_def recv_array_def client_recv_loop_eq)

lemma client_exchange_eq: "client_exchange = exchange"
  unfolding client_exchange_def exchange_def client_send_array_eq client_recv_array_eq ..

section \<open>\<^verbatim>\<open>exchange\<close>\<close>

lemma eof_at_logged [simp]: "eof_at (logged s xs) n = eof_at s n"
  by (simp add: eof_at_def data_until_def logged_def)

lemma error_at_logged [simp]: "error_at (logged s xs) n e = error_at s n e"
  by (simp add: error_at_def data_until_def logged_def)

lemma data_until_logged [simp]: "data_until (logged s xs) n = data_until s n"
  by (simp add: data_until_def logged_def)

lemma chunk_logged [simp]: "chunk (logged s xs) = chunk s"
  by (intro ext) (simp add: chunk_def logged_def)

lemma received_logged [simp]: "received (logged s xs) n = received s n"
  by (simp add: received_def)

lemma exchange_unfold:
  "exchange np addr A w =
     (case connect_result (sockets w (created w)) addr of
        Some e \<Rightarrow> Some (Inl e, leave w (logged (sockets w (created w)) [Connect addr]))
      | None \<Rightarrow>
          (case sendall_result (sockets w (created w)) (save np A) of
             Some e \<Rightarrow>
               Some (Inl e,
                 leave w (logged (sockets w (created w)) [Connect addr, Sendall (save np A)]))
           | None \<Rightarrow>
               (case recv_array np
                       (logged (sockets w (created w)) [Connect addr, Sendall (save np A)]) of
                  None \<Rightarrow> None
                | Some (r, s') \<Rightarrow> Some (r, leave w s'))))"
  by (simp add: exchange_def with_socket_def connect_def send_array_sendall sendall_def
      leave_def logged_def Let_def split: option.splits)

lemma exchange_connect_error:
  "connect_result (sockets w (created w)) addr = Some e \<Longrightarrow>
   exchange np addr A w = Some (Inl e, leave w (logged (sockets w (created w)) [Connect addr]))"
  by (simp add: exchange_unfold)

lemma exchange_sendall_error:
  "connect_result (sockets w (created w)) addr = None \<Longrightarrow>
   sendall_result (sockets w (created w)) (save np A) = Some e \<Longrightarrow>
   exchange np addr A w =
     Some (Inl e, leave w (logged (sockets w (created w)) [Connect addr, Sendall (save np A)]))"
  by (simp add: exchange_unfold)

lemma exchange_recv_error:
  "connect_result (sockets w (created w)) addr = None \<Longrightarrow>
   sendall_result (sockets w (created w)) (save np A) = None \<Longrightarrow>
   error_at (sockets w (created w)) n e \<Longrightarrow>
   exchange np addr A w =
     Some (Inl e, leave w (after_recvs
       (logged (sockets w (created w)) [Connect addr, Sendall (save np A)]) (Suc n)))"
  by (simp add: exchange_unfold recv_array_error)

lemma exchange_eof:
  "connect_result (sockets w (created w)) addr = None \<Longrightarrow>
   sendall_result (sockets w (created w)) (save np A) = None \<Longrightarrow>
   eof_at (sockets w (created w)) n \<Longrightarrow>
   exchange np addr A w =
     Some (load np (received (sockets w (created w)) n), leave w (after_recvs
       (logged (sockets w (created w)) [Connect addr, Sendall (save np A)]) (Suc n)))"
  by (simp add: exchange_unfold recv_array_eof)

lemma recv_array_Inr:
  assumes "recv_array np s = Some (Inr x, s')"
  shows "\<exists>n. eof_at s n \<and> load np (received s n) = Inr x \<and> s' = after_recvs s (Suc n)"
proof -
  from assms obtain f where "recv_loop s BytesIO = Some (Inr f, s')"
    by (auto simp: recv_array_def Let_def split: option.splits prod.splits sum.splits)
  then have "\<exists>n. eof_at s n" using recv_loop_Inr_iff [of s BytesIO] by blast
  then obtain n where n: "eof_at s n" ..
  from recv_array_eof [OF n, of np] assms show ?thesis using n by auto
qed

lemma exchange_Inr:
  assumes "exchange np addr A w = Some (Inr x, w')"
  shows "\<exists>n. connect_result (sockets w (created w)) addr = None \<and>
              sendall_result (sockets w (created w)) (save np A) = None \<and>
              eof_at (sockets w (created w)) n \<and>
              load np (received (sockets w (created w)) n) = Inr x \<and>
              w' = leave w (after_recvs
                 (logged (sockets w (created w)) [Connect addr, Sendall (save np A)]) (Suc n))"
proof -
  let ?s = "sockets w (created w)"
  let ?t = "logged ?s [Connect addr, Sendall (save np A)]"
  from assms have c: "connect_result ?s addr = None" and d: "sendall_result ?s (save np A) = None"
    by (auto simp: exchange_unfold Let_def split: option.splits)
  with assms obtain s' where r: "recv_array np ?t = Some (Inr x, s')" and w': "w' = leave w s'"
    by (auto simp: exchange_unfold Let_def split: option.splits)
  from recv_array_Inr [OF r] c d w' show ?thesis by auto
qed

lemma exchange_leaves:
  "exchange np addr A w = Some (r, w') \<Longrightarrow> \<exists>s'. w' = leave w s'"
  by (auto simp: exchange_unfold Let_def split: option.splits)

lemma no_open_socket_leave: "no_open_socket w \<Longrightarrow> no_open_socket (leave w s)"
  by (simp add: no_open_socket_def leave_def close_def)

lemma no_error_stop_iff:
  assumes "\<forall>k. \<exists>z. recv_result s k 1024 = Inr z"
  shows "(\<forall>n. data_until s n) \<longleftrightarrow> \<not> (\<exists>k\<ge>recvs s. recv_result s k 1024 = Inr [])"
proof
  assume all: "\<forall>n. data_until s n"
  show "\<not> (\<exists>k\<ge>recvs s. recv_result s k 1024 = Inr [])"
  proof
    assume "\<exists>k\<ge>recvs s. recv_result s k 1024 = Inr []"
    then obtain k where k: "recvs s \<le> k" "recv_result s k 1024 = Inr []" by blast
    from all have "data_until s (Suc (k - recvs s))" by blast
    then have "\<exists>z. recv_result s (recvs s + (k - recvs s)) 1024 = Inr z \<and> z \<noteq> []"
      unfolding data_until_iff by blast
    with k show False by simp
  qed
next
  assume none: "\<not> (\<exists>k\<ge>recvs s. recv_result s k 1024 = Inr [])"
  show "\<forall>n. data_until s n"
    unfolding data_until_iff
  proof (intro allI impI)
    fix n k :: nat
    from assms obtain z where z: "recv_result s (recvs s + k) 1024 = Inr z" by blast
    with none have "z \<noteq> []" by auto
    with z show "\<exists>z. recv_result s (recvs s + k) 1024 = Inr z \<and> z \<noteq> []" by blast
  qed
qed

lemma leave_explicit:
  "leave w (after_recvs (logged s xs) m) =
     w\<lparr>created := Suc (created w),
       released := released w @
         [s\<lparr>recvs := recvs s + m, ops := ops s @ xs @ replicate m (Recv 1024) @ [Close],
            closed := True\<rparr>]\<rparr>"
  by (simp add: leave_def after_recvs_def logged_def close_def)

lemma recv_loop_stops:
  assumes "recv_loop s f \<noteq> None"
  shows "\<exists>n. eof_at s n \<or> (\<exists>e. error_at s n e)"
proof -
  from assms have "\<not> (\<forall>n. data_until s n)" by (simp add: recv_loop_None_iff)
  then obtain n where n: "\<not> data_until s n" by blast
  define m where "m = (LEAST n. \<not> data_until s n)"
  have m: "\<not> data_until s m" unfolding m_def using n by (rule LeastI)
  then have "m \<noteq> 0" by (auto intro: ccontr)
  then obtain k where k: "m = Suc k" by (cases m) auto
  have dk: "data_until s k"
  proof (rule ccontr)
    assume "\<not> data_until s k"
    then have "m \<le> k" unfolding m_def by (rule Least_le)
    with k show False by simp
  qed
  with m k have stop: "\<not> (\<exists>z. recv_result s (recvs s + k) 1024 = Inr z \<and> z \<noteq> [])"
    by (auto simp: data_until_iff less_Suc_eq)
  show ?thesis
  proof (cases "recv_result s (recvs s + k) 1024")
    case (Inl e)
    with dk have "error_at s k e" by (simp add: error_at_def)
    then show ?thesis by blast
  next
    case (Inr z)
    with stop have "z = []" by auto
    with Inr dk have "eof_at s k" by (simp add: eof_at_def)
    then show ?thesis by blast
  qed
qed

lemma recv_array_Some:
  assumes "recv_array np s = Some (r, s')"
  shows "\<exists>n. s' = after_recvs s (Suc n)"
proof -
  from assms have "recv_loop s BytesIO \<noteq> None"
    by (auto simp: recv_array_def split: option.splits)
  from recv_loop_stops [OF this] obtain n where "eof_at s n \<or> (\<exists>e. error_at s n e)" ..
  then show ?thesis
  proof
    assume "eof_at s n"
    from recv_array_eof [OF this, of np] assms show ?thesis by auto
  next
    assume "\<exists>e. error_at s n e"
    then obtain e where "error_at s n e" ..
    from recv_array_error [OF this, of np] assms show ?thesis by auto
  qed
qed

lemma exchange_sends:
  assumes "exchange np addr A w = Some (r, w')"
    and "connect_result (sockets w (created w)) addr = None"
  shows "\<exists>s' xs. w' = w\<lparr>created := Suc (created w), released := released w @ [s']\<rparr> \<and>
           ops s' = ops (sockets w (created w)) @ [Connect addr, Sendall (save np A)] @ xs"
proof (cases "sendall_result (sockets w (created w)) (save np A)")
  case (Some e)
  with assms have "w' = leave w (logged (sockets w (created w)) [Connect addr, Sendall (save np A)])"
    by (simp add: exchange_unfold)
  then have "w' = w\<lparr>created := Suc (created w), released := released w @
      [close (logged (sockets w (created w)) [Connect addr, Sendall (save np A)])]\<rparr> \<and>
    ops (close (logged (sockets w (created w)) [Connect addr, Sendall (save np A)])) =
      ops (sockets w (created w)) @ [Connect addr, Sendall (save np A)] @ [Close]"
    by (simp add: leave_def logged_def close_def)
  then show ?thesis by blast
next
  case None
  with assms obtain t where
    t: "recv_array np (logged (sockets w (created w)) [Connect addr, Sendall (save np A)]) = Some (r, t)"
    and w': "w' = leave w t"
    by (auto simp: exchange_unfold split: option.splits)
  from recv_array_Some [OF t] obtain n where
    "t = after_recvs (logged (sockets w (created w)) [Connect addr, Sendall (save np A)]) (Suc n)" ..
  with w' have "w' = w\<lparr>created := Suc (created w), released := released w @
      [close (after_recvs (logged (sockets w (created w)) [Connect addr, Sendall (save np A)])
         (Suc n))]\<rparr> \<and>
    ops (close (after_recvs (logged (sockets w (created w)) [Connect addr, Sendall (save np A)])
         (Suc n))) =
      ops (sockets w (created w)) @ [Connect addr, Sendall (save np A)] @
        (replicate (Suc n) (Recv 1024) @ [Close])"
    by (simp add: leave_def logged_def close_def after_recvs_def)
  then show ?thesis by blast
qed

section \<open>The \<^verbatim>\<open>main\<close> functions\<close>

lemma close_to_ones_iff: "close_to_ones np y z \<longleftrightarrow> assert_close_to_ones np y z = Inr ()"
  by (simp add: close_to_ones_def assert_close_to_ones_def split: sum.splits)

lemma main_steps:
  "main np randn w =
     then_check (exchange np (''127.0.0.1'', 8080) (eye np 2) w)
       (\<lambda>y. assert_close_to_ones np y (eye np 2))
       (\<lambda>w. then_check (exchange np (''127.0.0.1'', 8080) (rsub np 1 (eye np 2)) w)
          (\<lambda>y. assert_close_to_ones np y (rsub np 1 (eye np 2)))
          (\<lambda>w. then_check (exchange np (''127.0.0.1'', 8080) randn w)
             (\<lambda>y. assert_close_to_ones np y randn)
             (\<lambda>w. Some (Inr (), w))))"
  by (simp add: main_def then_check_def assert_close_to_ones_def Let_def
      split: option.splits prod.splits sum.splits)

lemma then_check_Inl:
  "r = Some (Inl e, w) \<Longrightarrow> then_check r chk rest = Some (Inl e, w)"
  by (simp add: then_check_def)

lemma then_check_fail:
  "r = Some (Inr y, w) \<Longrightarrow> chk y = Inl e \<Longrightarrow> then_check r chk rest = Some (Inl e, w)"
  by (simp add: then_check_def)

lemma then_check_pass:
  "r = Some (Inr y, w) \<Longrightarrow> chk y = Inr () \<Longrightarrow> then_check r chk rest = rest w"
  by (simp add: then_check_def)

lemma then_check_Inr_iff:
  "then_check r chk rest = Some (Inr (), w') \<longleftrightarrow>
     (\<exists>y w. r = Some (Inr y, w) \<and> chk y = Inr () \<and> rest w = Some (Inr (), w'))"
  by (auto simp: then_check_def split: option.splits prod.splits sum.splits)

lemma client_main_unfold:
  "client_main np randn w =
     (case exchange np (''127.0.0.1'', 8080) randn w of
        None \<Rightarrow> None
      | Some (Inl e, w') \<Rightarrow> Some (Inl e, w')
      | Some (Inr y, w') \<Rightarrow>
          if shape np y = [1, 10] \<and> allclose_num np y 0 then Some (Inr (), w')
          else Some (Inl AssertionError, w'))"
  by (simp add: client_main_def client_exchange_eq Let_def
      split: option.splits prod.splits sum.splits)

lemma exchange_peer_sending:
  assumes "sockets w (created w) = peer_sending zs"
    and "list_all (\<lambda>z. z \<noteq> []) zs"
  shows "exchange np addr A w =
           Some (load np (concat zs),
             leave w (after_recvs (logged (peer_sending zs) [Connect addr, Sendall (save np A)])
               (Suc (length zs))))"
proof -
  have d: "data_until (peer_sending zs) (length zs)"
    using assms(2) by (auto simp: data_until_iff peer_sending_def list_all_iff)
  then have e: "eof_at (peer_sending zs) (length zs)"
    by (simp add: eof_at_def peer_sending_def)
  have "map (chunk (peer_sending zs)) [0..<length zs] = map ((!) zs) [0..<length zs]"
    by (simp add: chunk_def peer_sending_def)
  then have r: "received (peer_sending zs) (length zs) = concat zs"
    by (simp add: received_def map_nth)
  have "connect_result (peer_sending zs) addr = None"
    and "sendall_result (peer_sending zs) (save np A) = None"
    by (simp_all add: peer_sending_def)
  with exchange_eof [of w addr np A "length zs"] assms(1) e r show ?thesis by simp
qed

section \<open>The claims\<close>

text \<open>
  C3: for every incoming byte stream on which, after \<open>n\<close> chunks of data, a receive returns
  no bytes, the loop of \<^verbatim>\<open>recv_array\<close> leaves in its buffer exactly the received chunks
  concatenated in arrival order, and \<^verbatim>\<open>recv_array\<close> returns what \<^verbatim>\<open>np.load\<close> decodes
  from that whole buffer, after \<open>n + 1\<close> calls of \<^verbatim>\<open>recv(1024)\<close>. The same holds for the
  copy in \<^verbatim>\<open>client.py\<close>.
\<close>

theorem recv_array_accumulates:
  assumes "eof_at s n"
  shows "recv_loop s BytesIO =
           Some (Inr \<lparr>buf = received s n, pos = length (received s n)\<rparr>, after_recvs s (Suc n)) \<and>
         recv_array np s = Some (load np (received s n), after_recvs s (Suc n)) \<and>
         client_recv_array np s = Some (load np (received s n), after_recvs s (Suc n))"
  using assms by (simp add: recv_loop_BytesIO recv_array_eof client_recv_array_eq)

theorem recv_array_accumulates_witness:
  "eof_at (peer_sending [[2, 2, 2], [2, 1, 1, 2]]) 2 \<and>
   received (peer_sending [[2, 2, 2], [2, 1, 1, 2]]) 2 = [2, 2, 2, 2, 1, 1, 2] \<and>
   recv_array int_numpy (peer_sending [[2, 2, 2], [2, 1, 1, 2]]) =
     Some (Inr ([2, 2], [2, 1, 1, 2]), after_recvs (peer_sending [[2, 2, 2], [2, 1, 1, 2]]) 3)"
proof -
  have h: "eof_at (peer_sending [[2, 2, 2], [2, 1, 1, 2]]) 2"
    by (simp add: eof_at_def data_until_def peer_sending_def upt_rec)
  have r: "received (peer_sending [[2, 2, 2], [2, 1, 1, 2]]) 2 = [2, 2, 2, 2, 1, 1, 2]"
    by (simp add: received_def chunk_def peer_sending_def upt_rec)
  have l: "load int_numpy [2, 2, 2, 2, 1, 1, 2] = Inr ([2, 2], [2, 1, 1, 2])"
    by (simp add: int_numpy_def int_load_def)
  from recv_array_accumulates [OF h, of int_numpy] show ?thesis
    using h by (simp add: r l)
qed

text \<open>
  C8: the loop of \<^verbatim>\<open>recv_array\<close> is left by its \<^verbatim>\<open>break\<close> if and only if, after some
  number of chunks of data, a receive returns an empty chunk; it runs forever if and only
  if every receive returns data (there is no timeout and no other exit: the only other way
  out is an exception raised by \<^verbatim>\<open>recv\<close> itself); on a stream whose receives never raise
  it terminates if and only if some receive returns an empty chunk; and on a stream that
  the peer closes after finitely many chunks \<^verbatim>\<open>recv_array\<close> terminates. The loop of
  \<^verbatim>\<open>client.py\<close> is the same.
\<close>

theorem recv_loop_terminates_iff:
  "((\<exists>f' s'. recv_loop s f = Some (Inr f', s')) \<longleftrightarrow> (\<exists>n. eof_at s n)) \<and>
   (recv_loop s f = None \<longleftrightarrow> (\<forall>n. data_until s n)) \<and>
   ((\<forall>k. \<exists>z. recv_result s k 1024 = Inr z) \<longrightarrow>
      (recv_loop s f \<noteq> None \<longleftrightarrow> (\<exists>k\<ge>recvs s. recv_result s k 1024 = Inr []))) \<and>
   ((\<exists>n. eof_at s n) \<longrightarrow> recv_array np s \<noteq> None \<and> client_recv_array np s \<noteq> None) \<and>
   client_recv_loop s f = recv_loop s f"
proof (intro conjI impI)
  show "(\<exists>f' s'. recv_loop s f = Some (Inr f', s')) \<longleftrightarrow> (\<exists>n. eof_at s n)"
    by (rule recv_loop_Inr_iff)
  show "recv_loop s f = None \<longleftrightarrow> (\<forall>n. data_until s n)"
    by (rule recv_loop_None_iff)
  show "client_recv_loop s f = recv_loop s f"
    by (rule client_recv_loop_eq)
next
  assume "\<forall>k. \<exists>z. recv_result s k 1024 = Inr z"
  then show "recv_loop s f \<noteq> None \<longleftrightarrow> (\<exists>k\<ge>recvs s. recv_result s k 1024 = Inr [])"
    by (simp add: recv_loop_None_iff no_error_stop_iff)
next
  assume "\<exists>n. eof_at s n"
  then obtain n where n: "eof_at s n" ..
  then show "recv_array np s \<noteq> None" by (simp add: recv_array_eof)
  from n show "client_recv_array np s \<noteq> None" by (simp add: client_recv_array_eq recv_array_eof)
qed

theorem recv_loop_terminates_iff_witness:
  "(\<forall>k. \<exists>z. recv_result (peer_sending [[7], [8, 9]]) k 1024 = Inr z) \<and>
   eof_at (peer_sending [[7], [8, 9]]) 2 \<and>
   recv_loop (peer_sending [[7], [8, 9]]) BytesIO \<noteq> None \<and>
   recv_array int_numpy (peer_sending [[7], [8, 9]]) \<noteq> None \<and>
   (\<forall>k. \<exists>z. recv_result peer_streaming k 1024 = Inr z) \<and>
   \<not> (\<exists>k\<ge>recvs peer_streaming. recv_result peer_streaming k 1024 = Inr []) \<and>
   recv_loop peer_streaming BytesIO = None"
proof -
  have a: "\<forall>k. \<exists>z. recv_result (peer_sending [[7], [8, 9]]) k 1024 = Inr z"
    by (simp add: peer_sending_def)
  have e: "eof_at (peer_sending [[7], [8, 9]]) 2"
    by (simp add: eof_at_def data_until_def peer_sending_def upt_rec)
  have b: "\<forall>k. \<exists>z. recv_result peer_streaming k 1024 = Inr z"
    by (simp add: peer_streaming_def)
  have c: "\<not> (\<exists>k\<ge>recvs peer_streaming. recv_result peer_streaming k 1024 = Inr [])"
    by (simp add: peer_streaming_def)
  from recv_loop_terminates_iff [of "peer_sending [[7], [8, 9]]" BytesIO int_numpy]
    recv_loop_terminates_iff [of peer_streaming BytesIO int_numpy] a e b c
  show ?thesis by blast
qed

text \<open>
  C10: the result of \<^verbatim>\<open>recv_array\<close> depends only on the bytes delivered, not on how the
  transport splits them: two streams that end after \<open>n\<close> and \<open>m\<close> chunks of data and whose
  chunks concatenate to the same byte sequence make \<^verbatim>\<open>recv_array\<close> return the same
  value (the same array, or the same decoding exception), in both scripts.
\<close>

theorem recv_array_chunking_independent:
  assumes "eof_at s n" and "eof_at t m" and "received s n = received t m"
  shows "\<exists>x. recv_array np s = Some (x, after_recvs s (Suc n)) \<and>
             recv_array np t = Some (x, after_recvs t (Suc m)) \<and>
             client_recv_array np s = Some (x, after_recvs s (Suc n)) \<and>
             client_recv_array np t = Some (x, after_recvs t (Suc m))"
  using assms by (simp add: recv_array_eof client_recv_array_eq)

theorem recv_array_chunking_independent_witness:
  "eof_at (peer_sending [[2, 2, 2], [2, 1, 1, 2]]) 2 \<and>
   eof_at (peer_sending [[2], [2, 2, 2, 1], [1, 2]]) 3 \<and>
   received (peer_sending [[2, 2, 2], [2, 1, 1, 2]]) 2 =
     received (peer_sending [[2], [2, 2, 2, 1], [1, 2]]) 3 \<and>
   fst (the (recv_array int_numpy (peer_sending [[2, 2, 2], [2, 1, 1, 2]]))) =
     fst (the (recv_array int_numpy (peer_sending [[2], [2, 2, 2, 1], [1, 2]])))"
proof -
  have a: "eof_at (peer_sending [[2, 2, 2], [2, 1, 1, 2]]) 2"
    by (simp add: eof_at_def data_until_def peer_sending_def upt_rec)
  have b: "eof_at (peer_sending [[2], [2, 2, 2, 1], [1, 2]]) 3"
    by (simp add: eof_at_def data_until_def peer_sending_def upt_rec)
  have c: "received (peer_sending [[2, 2, 2], [2, 1, 1, 2]]) 2 =
           received (peer_sending [[2], [2, 2, 2, 1], [1, 2]]) 3"
    by (simp add: received_def chunk_def peer_sending_def upt_rec)
  from recv_array_chunking_independent [OF a b c, of int_numpy] a b c
  show ?thesis by auto
qed

text \<open>
  C9: \<^verbatim>\<open>send_array\<close>, \<^verbatim>\<open>recv_array\<close> and \<^verbatim>\<open>exchange\<close> of \<^verbatim>\<open>src/examples/client.py\<close>
  are the same functions as those of \<^verbatim>\<open>src/test.py\<close>: for every library, socket, address,
  array and world they perform the same operations and return the same result.
\<close>

theorem shared_core_equal:
  "client_send_array np s A = send_array np s A \<and>
   client_recv_loop s f = recv_loop s f \<and>
   client_recv_array np s = recv_array np s \<and>
   client_exchange np addr A w = exchange np addr A w"
  by (simp add: client_send_array_eq client_recv_loop_eq client_recv_array_eq client_exchange_eq)

text \<open>
  C2: for every address and array, \<^verbatim>\<open>exchange(addr, A)\<close> on a socket \<open>s\<close> whose
  \<^verbatim>\<open>connect\<close> and \<^verbatim>\<open>sendall\<close> do not raise and whose stream ends after \<open>n\<close> chunks of
  data makes exactly these calls on it: \<^verbatim>\<open>connect(addr)\<close>, \<^verbatim>\<open>sendall\<close> of the full
  encoding of \<open>A\<close>, \<^verbatim>\<open>recv(1024)\<close> until one returns no bytes, and the close of the
  socket; and it returns what \<^verbatim>\<open>np.load\<close> decodes from the bytes received, unchanged.
  Conversely, whenever \<^verbatim>\<open>exchange\<close> returns an array it has made exactly that sequence
  of calls. The same holds for the copy in \<^verbatim>\<open>client.py\<close>.
\<close>

theorem exchange_sequence:
  assumes "sockets w (created w) = s"
  shows
   "(connect_result s addr = None \<and> sendall_result s (save np A) = None \<and> eof_at s n \<longrightarrow>
       exchange np addr A w =
         Some (load np (received s n),
           w\<lparr>created := Suc (created w),
             released := released w @
               [s\<lparr>recvs := recvs s + Suc n,
                  ops := ops s @ [Connect addr, Sendall (save np A)] @
                         replicate (Suc n) (Recv 1024) @ [Close],
                  closed := True\<rparr>]\<rparr>)) \<and>
    (exchange np addr A w = Some (Inr x, w') \<longrightarrow>
       (\<exists>m. eof_at s m \<and>
            load np (received s m) = Inr x \<and>
            w' = w\<lparr>created := Suc (created w),
                   released := released w @
                     [s\<lparr>recvs := recvs s + Suc m,
                        ops := ops s @ [Connect addr, Sendall (save np A)] @
                               replicate (Suc m) (Recv 1024) @ [Close],
                        closed := True\<rparr>]\<rparr>)) \<and>
    client_exchange np addr A w = exchange np addr A w"
proof (intro conjI impI)
  assume "connect_result s addr = None \<and> sendall_result s (save np A) = None \<and> eof_at s n"
  with assms have "exchange np addr A w =
    Some (load np (received s n),
      leave w (after_recvs (logged s [Connect addr, Sendall (save np A)]) (Suc n)))"
    by (auto simp: exchange_eof)
  then show "exchange np addr A w =
         Some (load np (received s n),
           w\<lparr>created := Suc (created w),
             released := released w @
               [s\<lparr>recvs := recvs s + Suc n,
                  ops := ops s @ [Connect addr, Sendall (save np A)] @
                         replicate (Suc n) (Recv 1024) @ [Close],
                  closed := True\<rparr>]\<rparr>)"
    by (simp only: leave_explicit)
next
  assume "exchange np addr A w = Some (Inr x, w')"
  from exchange_Inr [OF this] assms obtain m where
    m: "eof_at s m" "load np (received s m) = Inr x"
       "w' = leave w (after_recvs (logged s [Connect addr, Sendall (save np A)]) (Suc m))"
    by auto
  from m(3) have "w' = w\<lparr>created := Suc (created w),
                    released := released w @
                      [s\<lparr>recvs := recvs s + Suc m,
                         ops := ops s @ [Connect addr, Sendall (save np A)] @
                                replicate (Suc m) (Recv 1024) @ [Close],
                         closed := True\<rparr>]\<rparr>"
    by (simp only: leave_explicit)
  with m(1,2) show "\<exists>m. eof_at s m \<and>
            load np (received s m) = Inr x \<and>
            w' = w\<lparr>created := Suc (created w),
                   released := released w @
                     [s\<lparr>recvs := recvs s + Suc m,
                        ops := ops s @ [Connect addr, Sendall (save np A)] @
                               replicate (Suc m) (Recv 1024) @ [Close],
                        closed := True\<rparr>]\<rparr>"
    by blast
next
  show "client_exchange np addr A w = exchange np addr A w"
    by (simp add: client_exchange_eq)
qed

theorem exchange_sequence_witness:
  "\<exists>w'. exchange int_numpy (''127.0.0.1'', 8080) ([2, 2], [1, 0, 0, 1])
           (world_of (\<lambda>k. peer_sending [[2, 2, 2], [2, 1, 1, 2]])) =
         Some (Inr ([2, 2], [2, 1, 1, 2]), w') \<and>
       created w' = 1 \<and>
       map ops (released w') =
         [[Connect (''127.0.0.1'', 8080), Sendall [2, 2, 2, 1, 0, 0, 1],
           Recv 1024, Recv 1024, Recv 1024, Close]] \<and>
       map closed (released w') = [True]"
proof -
  let ?w = "world_of (\<lambda>k. peer_sending [[2, 2, 2], [2, 1, 1, 2]])"
  let ?s = "peer_sending [[2, 2, 2], [2, 1, 1, 2]]"
  let ?ad = "(''127.0.0.1'', 8080 :: nat)"
  let ?A = "([2, 2], [1, 0, 0, 1]) :: int_array"
  define w' where "w' = ?w\<lparr>created := Suc (created ?w),
             released := released ?w @
               [?s\<lparr>recvs := recvs ?s + Suc 2,
                  ops := ops ?s @ [Connect ?ad, Sendall (save int_numpy ?A)] @
                         replicate (Suc 2) (Recv 1024) @ [Close],
                  closed := True\<rparr>]\<rparr>"
  have s: "sockets ?w (created ?w) = ?s" by (simp add: world_of_def)
  have h: "connect_result ?s ?ad = None \<and> sendall_result ?s (save int_numpy ?A) = None \<and>
           eof_at ?s 2"
    by (simp add: eof_at_def data_until_def peer_sending_def upt_rec)
  have r: "received ?s 2 = [2, 2, 2, 2, 1, 1, 2]"
    by (simp add: received_def chunk_def peer_sending_def upt_rec)
  have l: "load int_numpy [2, 2, 2, 2, 1, 1, 2] = Inr ([2, 2], [2, 1, 1, 2])"
    by (simp add: int_numpy_def int_load_def)
  have sv: "save int_numpy ?A = [2, 2, 2, 1, 0, 0, 1]"
    by (simp add: int_numpy_def int_save_def)
  have rp: "replicate 3 (Recv 1024) = [Recv 1024, Recv 1024, Recv 1024]"
    by (simp add: numeral_3_eq_3)
  from exchange_sequence [OF s, where addr = ?ad and np = int_numpy and A = ?A and n = 2] h
  have "exchange int_numpy ?ad ?A ?w = Some (Inr ([2, 2], [2, 1, 1, 2]), w')"
    by (simp add: r l w'_def)
  moreover have "created w' = 1 \<and>
       map ops (released w') =
         [[Connect ?ad, Sendall [2, 2, 2, 1, 0, 0, 1], Recv 1024, Recv 1024, Recv 1024, Close]] \<and>
       map closed (released w') = [True]"
    by (simp add: w'_def sv rp world_of_def peer_sending_def)
  ultimately show ?thesis by (intro exI [of _ w']) simp
qed

text \<open>
  C7: whenever \<^verbatim>\<open>exchange\<close> is left, by returning an array or by an exception (\<open>r\<close> is
  either), the socket it opened has been closed, \<^verbatim>\<open>close\<close> being the last call made on
  it, and no socket stays open: if every socket created before was released and closed,
  so is every socket created up to then. The same holds for the copy in \<^verbatim>\<open>client.py\<close>.
\<close>

theorem exchange_releases_socket:
  assumes "exchange np addr A w = Some (r, w')"
  shows "\<exists>s'. w' = w\<lparr>created := Suc (created w), released := released w @ [s']\<rparr> \<and>
              closed s' \<and> last (ops s') = Close \<and>
              (no_open_socket w \<longrightarrow> no_open_socket w') \<and>
              client_exchange np addr A w = Some (r, w')"
proof -
  from exchange_leaves [OF assms] obtain s where "w' = leave w s" ..
  then have "w' = w\<lparr>created := Suc (created w), released := released w @ [close s]\<rparr> \<and>
     closed (close s) \<and> last (ops (close s)) = Close \<and>
     (no_open_socket w \<longrightarrow> no_open_socket w')"
    by (simp add: leave_def close_def no_open_socket_def)
  with assms show ?thesis by (auto simp: client_exchange_eq)
qed

theorem exchange_releases_socket_witness:
  "exchange int_numpy (''127.0.0.1'', 8080) ([2, 2], [1, 0, 0, 1])
     (world_of (\<lambda>k. peer_failing (Some (OSError 111)) None [])) =
   Some (Inl (OSError 111),
     leave (world_of (\<lambda>k. peer_failing (Some (OSError 111)) None []))
       (logged (peer_failing (Some (OSError 111)) None []) [Connect (''127.0.0.1'', 8080)])) \<and>
   no_open_socket (world_of (\<lambda>k. peer_failing (Some (OSError 111)) None [])) \<and>
   no_open_socket
     (leave (world_of (\<lambda>k. peer_failing (Some (OSError 111)) None []))
       (logged (peer_failing (Some (OSError 111)) None []) [Connect (''127.0.0.1'', 8080)])) \<and>
   map closed (released
     (leave (world_of (\<lambda>k. peer_failing (Some (OSError 111)) None []))
       (logged (peer_failing (Some (OSError 111)) None []) [Connect (''127.0.0.1'', 8080)]))) =
     [True]"
proof -
  let ?w = "world_of (\<lambda>k. peer_failing (Some (OSError 111)) None [])"
  have x: "exchange int_numpy (''127.0.0.1'', 8080) ([2, 2], [1, 0, 0, 1]) ?w =
    Some (Inl (OSError 111),
      leave ?w (logged (peer_failing (Some (OSError 111)) None []) [Connect (''127.0.0.1'', 8080)]))"
    by (rule exchange_connect_error [THEN trans]) (simp_all add: world_of_def peer_failing_def)
  have n: "no_open_socket ?w" by (simp add: no_open_socket_def world_of_def)
  from exchange_releases_socket [OF x] n show ?thesis
    using x by (auto simp: leave_def close_def world_of_def)
qed

text \<open>
  C4: \<^verbatim>\<open>main\<close> of \<^verbatim>\<open>src/test.py\<close> returns normally, leaving the world \<open>w'\<close>, exactly when
  the three exchanges, made one after the other with the 2\<times>2 identity matrix, with
  \<^verbatim>\<open>1 - np.eye(2)\<close> and with the random 2\<times>2 matrix, each return an array \<open>y\<close> for which
  \<^verbatim>\<open>np.allclose(y - z, np.ones((2, 2)))\<close> holds, \<open>z\<close> being the array sent.
\<close>

theorem main_succeeds_iff:
  "main np randn w = Some (Inr (), w') \<longleftrightarrow>
     (\<exists>y1 w1 y2 w2 y3.
        exchange np (''127.0.0.1'', 8080) (eye np 2) w = Some (Inr y1, w1) \<and>
        close_to_ones np y1 (eye np 2) \<and>
        exchange np (''127.0.0.1'', 8080) (rsub np 1 (eye np 2)) w1 = Some (Inr y2, w2) \<and>
        close_to_ones np y2 (rsub np 1 (eye np 2)) \<and>
        exchange np (''127.0.0.1'', 8080) randn w2 = Some (Inr y3, w') \<and>
        close_to_ones np y3 randn)"
  unfolding main_steps then_check_Inr_iff close_to_ones_iff by auto

theorem main_succeeds_iff_witness:
  "\<exists>w'. main int_numpy ([2, 2], [3, - 1, 0, 5]) (world_of plus_one_server) = Some (Inr (), w') \<and>
        created w' = 3 \<and> map closed (released w') = [True, True, True]"
proof -
  let ?ad = "(''127.0.0.1'', 8080 :: nat)"
  let ?x = "eye int_numpy 2" and ?z = "rsub int_numpy 1 (eye int_numpy 2)"
  let ?r = "([2, 2], [3, - 1, 0, 5]) :: int_array"
  define w0 where "w0 = world_of plus_one_server"
  define w1 where "w1 = leave w0 (after_recvs
    (logged (peer_sending [[2, 2, 2, 2, 1, 1, 2]]) [Connect ?ad, Sendall (save int_numpy ?x)]) 2)"
  define w2 where "w2 = leave w1 (after_recvs
    (logged (peer_sending [[2, 2, 2, 1], [2, 2, 1]]) [Connect ?ad, Sendall (save int_numpy ?z)]) 3)"
  define w3 where "w3 = leave w2 (after_recvs
    (logged (peer_sending [[2, 2, 2], [4, 0, 1, 6]]) [Connect ?ad, Sendall (save int_numpy ?r)]) 3)"
  have s0: "sockets w0 (created w0) = peer_sending [[2, 2, 2, 2, 1, 1, 2]]"
    by (simp add: w0_def world_of_def plus_one_server_def)
  have s1: "sockets w1 (created w1) = peer_sending [[2, 2, 2, 1], [2, 2, 1]]"
    by (simp add: w1_def w0_def leave_def world_of_def plus_one_server_def)
  have s2: "sockets w2 (created w2) = peer_sending [[2, 2, 2], [4, 0, 1, 6]]"
    by (simp add: w2_def w1_def w0_def leave_def world_of_def plus_one_server_def)
  have l1: "load int_numpy [2, 2, 2, 2, 1, 1, 2] = Inr ([2, 2], [2, 1, 1, 2])"
    and l2: "load int_numpy [2, 2, 2, 1, 2, 2, 1] = Inr ([2, 2], [1, 2, 2, 1])"
    and l3: "load int_numpy [2, 2, 2, 4, 0, 1, 6] = Inr ([2, 2], [4, 0, 1, 6])"
    by (simp_all add: int_numpy_def int_load_def)
  have e1: "exchange int_numpy ?ad ?x w0 = Some (Inr ([2, 2], [2, 1, 1, 2]), w1)"
    by (subst exchange_peer_sending [OF s0]) (simp_all add: l1 w1_def numeral_2_eq_2)
  have e2: "exchange int_numpy ?ad ?z w1 = Some (Inr ([2, 2], [1, 2, 2, 1]), w2)"
    by (subst exchange_peer_sending [OF s1]) (simp_all add: l2 w2_def numeral_3_eq_3)
  have e3: "exchange int_numpy ?ad ?r w2 = Some (Inr ([2, 2], [4, 0, 1, 6]), w3)"
    by (subst exchange_peer_sending [OF s2]) (simp_all add: l3 w3_def numeral_3_eq_3)
  have c1: "close_to_ones int_numpy ([2, 2], [2, 1, 1, 2]) ?x"
    and c2: "close_to_ones int_numpy ([2, 2], [1, 2, 2, 1]) ?z"
    and c3: "close_to_ones int_numpy ([2, 2], [4, 0, 1, 6]) ?r"
    by (simp_all add: close_to_ones_def int_numpy_def upt_rec eval_nat_numeral)
  have "main int_numpy ?r w0 = Some (Inr (), w3)"
    unfolding main_succeeds_iff using e1 c1 e2 c2 e3 c3 by blast
  moreover have "created w3 = 3 \<and> map closed (released w3) = [True, True, True]"
    by (simp add: w3_def w2_def w1_def w0_def leave_def close_def world_of_def)
  ultimately show ?thesis
    unfolding w0_def by (intro exI [of _ w3]) simp
qed

text \<open>
  C5: \<^verbatim>\<open>main\<close> of \<^verbatim>\<open>src/examples/client.py\<close> makes one exchange, in which it sends the
  random 1\<times>32 vector, and returns normally exactly when that exchange returns an array
  \<open>y\<close> with \<^verbatim>\<open>y.shape == (1, 10)\<close> and \<^verbatim>\<open>np.allclose(y, 0.)\<close>. In terms of the socket
  \<open>s\<close> it gets: it returns normally exactly when \<^verbatim>\<open>connect\<close> and \<^verbatim>\<open>sendall\<close> do not
  raise, the stream ends after some \<open>n\<close> chunks that decode to such a \<open>y\<close>, and then the
  calls made on the socket are \<^verbatim>\<open>connect\<close>, \<^verbatim>\<open>sendall\<close> of the encoding of the vector,
  \<open>n + 1\<close> times \<^verbatim>\<open>recv(1024)\<close> and the close. Whenever it is left, by returning or by an
  exception, exactly one socket was created, and unless \<^verbatim>\<open>connect\<close> raised, the second
  call on that socket was the \<^verbatim>\<open>sendall\<close> of the encoding of the vector.
\<close>

theorem client_main_succeeds_iff:
  assumes "sockets w (created w) = s"
  shows
   "(client_main np randn w = Some (Inr (), w') \<longleftrightarrow>
      (\<exists>y. client_exchange np (''127.0.0.1'', 8080) randn w = Some (Inr y, w') \<and>
           shape np y = [1, 10] \<and> allclose_num np y 0)) \<and>
    (client_main np randn w = Some (Inr (), w') \<longleftrightarrow>
      (\<exists>n y. connect_result s (''127.0.0.1'', 8080) = None \<and>
             sendall_result s (save np randn) = None \<and>
             eof_at s n \<and> load np (received s n) = Inr y \<and>
             shape np y = [1, 10] \<and> allclose_num np y 0 \<and>
             w' = w\<lparr>created := Suc (created w),
                    released := released w @
                      [s\<lparr>recvs := recvs s + Suc n,
                         ops := ops s @ [Connect (''127.0.0.1'', 8080), Sendall (save np randn)] @
                                replicate (Suc n) (Recv 1024) @ [Close],
                         closed := True\<rparr>]\<rparr>)) \<and>
    (client_main np randn w = Some (r, w') \<longrightarrow> created w' = Suc (created w)) \<and>
    (client_main np randn w = Some (r, w') \<and> connect_result s (''127.0.0.1'', 8080) = None \<longrightarrow>
      (\<exists>s' xs. w' = w\<lparr>created := Suc (created w), released := released w @ [s']\<rparr> \<and>
              ops s' = ops s @ [Connect (''127.0.0.1'', 8080), Sendall (save np randn)] @ xs))"
proof (intro conjI impI)
  let ?ad = "(''127.0.0.1'', 8080 :: nat)"
  show one: "client_main np randn w = Some (Inr (), w') \<longleftrightarrow>
      (\<exists>y. client_exchange np ?ad randn w = Some (Inr y, w') \<and>
           shape np y = [1, 10] \<and> allclose_num np y 0)"
    by (auto simp: client_main_unfold client_exchange_eq
        split: option.splits prod.splits sum.splits if_splits)
  have ex: "exchange np ?ad randn w = Some (Inr y, w') \<longleftrightarrow>
      (\<exists>n. connect_result s ?ad = None \<and> sendall_result s (save np randn) = None \<and>
           eof_at s n \<and> load np (received s n) = Inr y \<and>
           w' = w\<lparr>created := Suc (created w),
                    released := released w @
                      [s\<lparr>recvs := recvs s + Suc n,
                         ops := ops s @ [Connect ?ad, Sendall (save np randn)] @
                                replicate (Suc n) (Recv 1024) @ [Close],
                         closed := True\<rparr>]\<rparr>)" for y
  proof
    assume "exchange np ?ad randn w = Some (Inr y, w')"
    from exchange_Inr [OF this] assms show "\<exists>n. connect_result s ?ad = None \<and>
           sendall_result s (save np randn) = None \<and>
           eof_at s n \<and> load np (received s n) = Inr y \<and>
           w' = w\<lparr>created := Suc (created w),
                    released := released w @
                      [s\<lparr>recvs := recvs s + Suc n,
                         ops := ops s @ [Connect ?ad, Sendall (save np randn)] @
                                replicate (Suc n) (Recv 1024) @ [Close],
                         closed := True\<rparr>]\<rparr>"
      by (auto simp only: leave_explicit)
  next
    assume "\<exists>n. connect_result s ?ad = None \<and> sendall_result s (save np randn) = None \<and>
           eof_at s n \<and> load np (received s n) = Inr y \<and>
           w' = w\<lparr>created := Suc (created w),
                    released := released w @
                      [s\<lparr>recvs := recvs s + Suc n,
                         ops := ops s @ [Connect ?ad, Sendall (save np randn)] @
                                replicate (Suc n) (Recv 1024) @ [Close],
                         closed := True\<rparr>]\<rparr>"
    then obtain n where n: "connect_result s ?ad = None" "sendall_result s (save np randn) = None"
      "eof_at s n" "load np (received s n) = Inr y"
      "w' = leave w (after_recvs (logged s [Connect ?ad, Sendall (save np randn)]) (Suc n))"
      by (auto simp only: leave_explicit)
    with assms exchange_eof [of w ?ad np randn n]
    show "exchange np ?ad randn w = Some (Inr y, w')" by simp
  qed
  show "client_main np randn w = Some (Inr (), w') \<longleftrightarrow>
      (\<exists>n y. connect_result s ?ad = None \<and>
             sendall_result s (save np randn) = None \<and>
             eof_at s n \<and> load np (received s n) = Inr y \<and>
             shape np y = [1, 10] \<and> allclose_num np y 0 \<and>
             w' = w\<lparr>created := Suc (created w),
                    released := released w @
                      [s\<lparr>recvs := recvs s + Suc n,
                         ops := ops s @ [Connect ?ad, Sendall (save np randn)] @
                                replicate (Suc n) (Recv 1024) @ [Close],
                         closed := True\<rparr>]\<rparr>)"
    unfolding one client_exchange_eq ex by blast
next
  assume "client_main np randn w = Some (r, w')"
  then obtain r' where "exchange np (''127.0.0.1'', 8080) randn w = Some (r', w')"
    by (auto simp: client_main_unfold split: option.splits prod.splits sum.splits if_splits)
  from exchange_leaves [OF this] show "created w' = Suc (created w)"
    by (auto simp: leave_def)
next
  assume a: "client_main np randn w = Some (r, w') \<and> connect_result s (''127.0.0.1'', 8080) = None"
  then obtain r' where "exchange np (''127.0.0.1'', 8080) randn w = Some (r', w')"
    by (auto simp: client_main_unfold split: option.splits prod.splits sum.splits if_splits)
  from exchange_sends [OF this] a assms
  show "\<exists>s' xs. w' = w\<lparr>created := Suc (created w), released := released w @ [s']\<rparr> \<and>
              ops s' = ops s @ [Connect (''127.0.0.1'', 8080), Sendall (save np randn)] @ xs"
    by simp
qed

theorem client_main_succeeds_iff_witness:
  "\<exists>w'. client_main int_numpy ([1, 32], replicate 32 7) (world_of zero_server) =
          Some (Inr (), w') \<and>
        created w' = 1 \<and>
        map ops (released w') =
          [[Connect (''127.0.0.1'', 8080), Sendall ([2, 1, 32] @ replicate 32 7),
            Recv 1024, Recv 1024, Recv 1024, Close]] \<and>
        map closed (released w') = [True]"
proof -
  let ?ad = "(''127.0.0.1'', 8080 :: nat)"
  let ?r = "([1, 32], replicate 32 7) :: int_array"
  let ?s = "peer_sending [[2, 1, 10, 0, 0, 0, 0, 0], [0, 0, 0, 0, 0]]"
  let ?y = "([1, 10], [0, 0, 0, 0, 0, 0, 0, 0, 0, 0]) :: int_array"
  define w0 where "w0 = world_of zero_server"
  define w1 where "w1 = w0\<lparr>created := Suc (created w0),
                    released := released w0 @
                      [?s\<lparr>recvs := recvs ?s + Suc 2,
                         ops := ops ?s @ [Connect ?ad, Sendall (save int_numpy ?r)] @
                                replicate (Suc 2) (Recv 1024) @ [Close],
                         closed := True\<rparr>]\<rparr>"
  have s0: "sockets w0 (created w0) = ?s"
    by (simp add: w0_def world_of_def zero_server_def)
  have h: "connect_result ?s ?ad = None \<and> sendall_result ?s (save int_numpy ?r) = None \<and>
           eof_at ?s 2"
    by (simp add: eof_at_def data_until_def peer_sending_def upt_rec)
  have rc: "received ?s 2 = [2, 1, 10, 0, 0, 0, 0, 0, 0, 0, 0, 0, 0]"
    by (simp add: received_def chunk_def peer_sending_def upt_rec)
  have l: "load int_numpy [2, 1, 10, 0, 0, 0, 0, 0, 0, 0, 0, 0, 0] = Inr ?y"
    by (simp add: int_numpy_def int_load_def)
  have c: "shape int_numpy ?y = [1, 10] \<and> allclose_num int_numpy ?y 0"
    by (simp add: int_numpy_def)
  have rp: "replicate 3 (Recv 1024) = [Recv 1024, Recv 1024, Recv 1024]"
    by (simp add: numeral_3_eq_3)
  have "\<exists>n y. connect_result ?s ?ad = None \<and>
             sendall_result ?s (save int_numpy ?r) = None \<and>
             eof_at ?s n \<and> load int_numpy (received ?s n) = Inr y \<and>
             shape int_numpy y = [1, 10] \<and> allclose_num int_numpy y 0 \<and>
             w1 = w0\<lparr>created := Suc (created w0),
                    released := released w0 @
                      [?s\<lparr>recvs := recvs ?s + Suc n,
                         ops := ops ?s @ [Connect ?ad, Sendall (save int_numpy ?r)] @
                                replicate (Suc n) (Recv 1024) @ [Close],
                         closed := True\<rparr>]\<rparr>"
    using h c by (intro exI [of _ 2] exI [of _ ?y]) (simp only: rc l w1_def simp_thms)
  with client_main_succeeds_iff [OF s0, of int_numpy ?r w1]
  have A: "client_main int_numpy ?r (world_of zero_server) = Some (Inr (), w1)"
    unfolding w0_def by blast
  have B: "created w1 = 1"
    and C: "map ops (released w1) =
          [[Connect ?ad, Sendall ([2, 1, 32] @ replicate 32 7),
            Recv 1024, Recv 1024, Recv 1024, Close]]"
    and D: "map closed (released w1) = [True]"
    by (simp_all add: w1_def w0_def rp world_of_def peer_sending_def int_numpy_def int_save_def)
  from A B C D show ?thesis
    by (intro exI [of _ w1] conjI)
qed

text \<open>
  C6: no exception is caught. In \<^verbatim>\<open>exchange\<close> (both copies), an exception \<open>e\<close> raised by
  \<^verbatim>\<open>connect\<close>, by \<^verbatim>\<open>sendall\<close>, by a \<^verbatim>\<open>recv\<close> or by \<^verbatim>\<open>np.load\<close> on the response is the
  outcome of \<^verbatim>\<open>exchange\<close>, and after the call that raised nothing is done on the socket
  but closing it. In both \<^verbatim>\<open>main\<close> functions, an exception that leaves an exchange, a
  subtraction that raises and an assertion that fails are the outcome of \<^verbatim>\<open>main\<close>, in the
  world as that step left it: nothing is retried and no further socket is created.
\<close>

theorem exceptions_propagate:
  assumes "sockets w (created w) = s"
  shows
   "(connect_result s addr = Some e \<longrightarrow>
       exchange np addr A w = Some (Inl e, leave w (logged s [Connect addr]))) \<and>
    (connect_result s addr = None \<and> sendall_result s (save np A) = Some e \<longrightarrow>
       exchange np addr A w =
         Some (Inl e, leave w (logged s [Connect addr, Sendall (save np A)]))) \<and>
    (connect_result s addr = None \<and> sendall_result s (save np A) = None \<and> error_at s n e \<longrightarrow>
       exchange np addr A w =
         Some (Inl e,
           leave w (after_recvs (logged s [Connect addr, Sendall (save np A)]) (Suc n)))) \<and>
    (connect_result s addr = None \<and> sendall_result s (save np A) = None \<and> eof_at s n \<and>
     load np (received s n) = Inl e \<longrightarrow>
       exchange np addr A w =
         Some (Inl e,
           leave w (after_recvs (logged s [Connect addr, Sendall (save np A)]) (Suc n)))) \<and>
    client_exchange np addr A w = exchange np addr A w \<and>
    (exchange np (''127.0.0.1'', 8080) (eye np 2) w = Some (Inl e, w1) \<longrightarrow>
       main np randn w = Some (Inl e, w1)) \<and>
    (exchange np (''127.0.0.1'', 8080) (eye np 2) w = Some (Inr y1, w1) \<and>
     assert_close_to_ones np y1 (eye np 2) = Inl e \<longrightarrow>
       main np randn w = Some (Inl e, w1)) \<and>
    (exchange np (''127.0.0.1'', 8080) (eye np 2) w = Some (Inr y1, w1) \<and>
     assert_close_to_ones np y1 (eye np 2) = Inr () \<and>
     exchange np (''127.0.0.1'', 8080) (rsub np 1 (eye np 2)) w1 = Some (Inl e, w2) \<longrightarrow>
       main np randn w = Some (Inl e, w2)) \<and>
    (exchange np (''127.0.0.1'', 8080) (eye np 2) w = Some (Inr y1, w1) \<and>
     assert_close_to_ones np y1 (eye np 2) = Inr () \<and>
     exchange np (''127.0.0.1'', 8080) (rsub np 1 (eye np 2)) w1 = Some (Inr y2, w2) \<and>
     assert_close_to_ones np y2 (rsub np 1 (eye np 2)) = Inl e \<longrightarrow>
       main np randn w = Some (Inl e, w2)) \<and>
    (exchange np (''127.0.0.1'', 8080) (eye np 2) w = Some (Inr y1, w1) \<and>
     assert_close_to_ones np y1 (eye np 2) = Inr () \<and>
     exchange np (''127.0.0.1'', 8080) (rsub np 1 (eye np 2)) w1 = Some (Inr y2, w2) \<and>
     assert_close_to_ones np y2 (rsub np 1 (eye np 2)) = Inr () \<and>
     exchange np (''127.0.0.1'', 8080) randn w2 = Some (Inl e, w3) \<longrightarrow>
       main np randn w = Some (Inl e, w3)) \<and>
    (exchange np (''127.0.0.1'', 8080) (eye np 2) w = Some (Inr y1, w1) \<and>
     assert_close_to_ones np y1 (eye np 2) = Inr () \<and>
     exchange np (''127.0.0.1'', 8080) (rsub np 1 (eye np 2)) w1 = Some (Inr y2, w2) \<and>
     assert_close_to_ones np y2 (rsub np 1 (eye np 2)) = Inr () \<and>
     exchange np (''127.0.0.1'', 8080) randn w2 = Some (Inr y3, w3) \<and>
     assert_close_to_ones np y3 randn = Inl e \<longrightarrow>
       main np randn w = Some (Inl e, w3)) \<and>
    (client_exchange np (''127.0.0.1'', 8080) randn w = Some (Inl e, w1) \<longrightarrow>
       client_main np randn w = Some (Inl e, w1)) \<and>
    (client_exchange np (''127.0.0.1'', 8080) randn w = Some (Inr y1, w1) \<and>
     (shape np y1 \<noteq> [1, 10] \<or> \<not> allclose_num np y1 0) \<longrightarrow>
       client_main np randn w = Some (Inl AssertionError, w1))"
proof -
  note x = assms [symmetric]
  have a: "connect_result s addr = Some e \<longrightarrow>
       exchange np addr A w = Some (Inl e, leave w (logged s [Connect addr]))"
    unfolding x by (simp add: exchange_connect_error)
  have b: "connect_result s addr = None \<and> sendall_result s (save np A) = Some e \<longrightarrow>
       exchange np addr A w =
         Some (Inl e, leave w (logged s [Connect addr, Sendall (save np A)]))"
    unfolding x by (simp add: exchange_sendall_error)
  have c: "connect_result s addr = None \<and> sendall_result s (save np A) = None \<and> error_at s n e \<longrightarrow>
       exchange np addr A w =
         Some (Inl e,
           leave w (after_recvs (logged s [Connect addr, Sendall (save np A)]) (Suc n)))"
    unfolding x by (simp add: exchange_recv_error)
  have d: "connect_result s addr = None \<and> sendall_result s (save np A) = None \<and> eof_at s n \<and>
     load np (received s n) = Inl e \<longrightarrow>
       exchange np addr A w =
         Some (Inl e,
           leave w (after_recvs (logged s [Connect addr, Sendall (save np A)]) (Suc n)))"
    unfolding x by (auto simp: exchange_eof)
  have k: "(client_exchange np (''127.0.0.1'', 8080) randn w = Some (Inl e, w1) \<longrightarrow>
       client_main np randn w = Some (Inl e, w1)) \<and>
    (client_exchange np (''127.0.0.1'', 8080) randn w = Some (Inr y1, w1) \<and>
     (shape np y1 \<noteq> [1, 10] \<or> \<not> allclose_num np y1 0) \<longrightarrow>
       client_main np randn w = Some (Inl AssertionError, w1))"
    by (auto simp: client_main_unfold client_exchange_eq)
  show ?thesis
    apply (intro conjI)
                apply (rule a)
               apply (rule b)
              apply (rule c)
             apply (rule d)
            apply (simp add: client_exchange_eq)
           apply (simp add: main_steps then_check_Inl)
          apply (simp add: main_steps then_check_fail)
         apply (simp add: main_steps then_check_pass then_check_Inl)
        apply (simp add: main_steps then_check_pass then_check_fail)
       apply (simp add: main_steps then_check_pass then_check_Inl)
      apply (simp add: main_steps then_check_pass then_check_fail)
     apply (rule k [THEN conjunct1])
    apply (rule k [THEN conjunct2])
    done
qed

theorem exceptions_propagate_witness:
  "(\<exists>w'. main int_numpy ([2, 2], [3, - 1, 0, 5])
            (world_of (\<lambda>k. peer_failing None None [Inr [2, 2, 2], Inl (OSError 104)])) =
          Some (Inl (OSError 104), w') \<and>
        created w' = 1 \<and> map closed (released w') = [True]) \<and>
   (\<exists>w'. main int_numpy ([2, 2], [3, - 1, 0, 5]) (world_of (\<lambda>k. peer_sending [[9]])) =
          Some (Inl ValueError, w') \<and>
        created w' = 1 \<and> map closed (released w') = [True]) \<and>
   (\<exists>w'. main int_numpy ([2, 2], [3, - 1, 0, 5])
            (world_of (\<lambda>k. peer_sending [[2, 2, 2, 0, 0, 0, 0]])) =
          Some (Inl AssertionError, w') \<and>
        created w' = 1 \<and> map closed (released w') = [True])"
proof (intro conjI)
  let ?ad = "(''127.0.0.1'', 8080 :: nat)"
  let ?x = "eye int_numpy 2"
  let ?r = "([2, 2], [3, - 1, 0, 5]) :: int_array"
  let ?sent = "[Connect ?ad, Sendall (save int_numpy ?x)]"
  {
    let ?s = "peer_failing None None [Inr [2, 2, 2], Inl (OSError 104)]"
    define w0 where "w0 = world_of (\<lambda>k. ?s)"
    define w1 where "w1 = leave w0 (after_recvs (logged ?s ?sent) (Suc 1))"
    have s0: "sockets w0 (created w0) = ?s" by (simp add: w0_def world_of_def)
    have h: "connect_result ?s ?ad = None \<and> sendall_result ?s (save int_numpy ?x) = None \<and>
             error_at ?s 1 (OSError 104)"
      by (simp add: peer_failing_def error_at_def data_until_def upt_rec)
    from exceptions_propagate [OF s0, where addr = ?ad and np = int_numpy and A = ?x
        and e = "OSError 104" and n = 1 and ?w1.0 = w1 and randn = ?r] h
    have "main int_numpy ?r w0 = Some (Inl (OSError 104), w1)"
      by (simp add: w1_def)
    moreover have "created w1 = 1 \<and> map closed (released w1) = [True]"
      by (simp add: w1_def w0_def leave_def close_def world_of_def)
    ultimately show "\<exists>w'. main int_numpy ?r (world_of (\<lambda>k. ?s)) = Some (Inl (OSError 104), w') \<and>
        created w' = 1 \<and> map closed (released w') = [True]"
      unfolding w0_def by (intro exI [of _ w1]) simp
  }
  {
    let ?s = "peer_sending [[9]]"
    define w0 where "w0 = world_of (\<lambda>k. ?s)"
    define w1 where "w1 = leave w0 (after_recvs (logged ?s ?sent) (Suc 1))"
    have s0: "sockets w0 (created w0) = ?s" by (simp add: w0_def world_of_def)
    have h: "connect_result ?s ?ad = None \<and> sendall_result ?s (save int_numpy ?x) = None \<and>
             eof_at ?s 1 \<and> load int_numpy (received ?s 1) = Inl ValueError"
      by (simp add: peer_sending_def eof_at_def data_until_def received_def chunk_def upt_rec
          int_numpy_def int_load_def)
    from exceptions_propagate [OF s0, where addr = ?ad and np = int_numpy and A = ?x
        and e = ValueError and n = 1 and ?w1.0 = w1 and randn = ?r] h
    have "main int_numpy ?r w0 = Some (Inl ValueError, w1)"
      by (simp add: w1_def)
    moreover have "created w1 = 1 \<and> map closed (released w1) = [True]"
      by (simp add: w1_def w0_def leave_def close_def world_of_def)
    ultimately show "\<exists>w'. main int_numpy ?r (world_of (\<lambda>k. ?s)) = Some (Inl ValueError, w') \<and>
        created w' = 1 \<and> map closed (released w') = [True]"
      unfolding w0_def by (intro exI [of _ w1]) simp
  }
  {
    let ?s = "peer_sending [[2, 2, 2, 0, 0, 0, 0]]"
    define w0 where "w0 = world_of (\<lambda>k. ?s)"
    define w1 where "w1 = leave w0 (after_recvs (logged ?s ?sent) (Suc (length [[2 :: byte]])))"
    have s0: "sockets w0 (created w0) = ?s" by (simp add: w0_def world_of_def)
    have l: "load int_numpy [2, 2, 2, 0, 0, 0, 0] = Inr ([2, 2], [0, 0, 0, 0])"
      by (simp add: int_numpy_def int_load_def)
    have e: "exchange int_numpy ?ad ?x w0 = Some (Inr ([2, 2], [0, 0, 0, 0]), w1)"
      by (subst exchange_peer_sending [OF s0]) (simp_all add: l w1_def)
    have a: "assert_close_to_ones int_numpy ([2, 2], [0, 0, 0, 0]) ?x = Inl AssertionError"
      by (simp add: assert_close_to_ones_def int_numpy_def upt_rec eval_nat_numeral)
    from exceptions_propagate [OF s0, where np = int_numpy and e = AssertionError
        and ?w1.0 = w1 and ?y1.0 = "([2, 2], [0, 0, 0, 0])" and randn = ?r] e a
    have "main int_numpy ?r w0 = Some (Inl AssertionError, w1)"
      by simp
    moreover have "created w1 = 1 \<and> map closed (released w1) = [True]"
      by (simp add: w1_def w0_def leave_def close_def world_of_def)
    ultimately show "\<exists>w'. main int_numpy ?r (world_of (\<lambda>k. ?s)) = Some (Inl AssertionError, w') \<and>
        created w' = 1 \<and> map closed (released w') = [True]"
      unfolding w0_def by (intro exI [of _ w1]) simp
  }
qed

end
